theory Spec2Isabelle
  imports Complex_Main
begin

section \<open>The estimation node of agimus-hpp\<close>

text \<open>
  A shallow embedding of \<^verbatim>\<open>src/agimus_hpp/estimation.py\<close> (class \<^verbatim>\<open>Estimation\<close>).
  The attributes of \<^verbatim>\<open>self\<close> are the fields of a record; every method is a function
  from the record to the updated record and an outcome. Python floats are read as
  reals, ROS time stamps as natural numbers (nanoseconds), strings as \<^typ>\<open>string\<close>.
  Everything outside the class (the HPP server reached through CORBA, ROS parameters,
  publishers, loggers, the \<^verbatim>\<open>hpp.Quaternion\<close> helper) is an environment: it decides
  what each external call returns and whether it raises, and every call made is
  appended to a trace, in program order.
\<close>

subsection \<open>Values, exceptions and external calls\<close>

type_synonym time = nat
type_synonym config = "real list"

text \<open>
  The exceptions the code can meet. \<open>OtherException\<close> stands for any other subclass of
  Python's \<^verbatim>\<open>Exception\<close> (a CORBA system exception, a ROS exception);
  \<open>KeyboardInterrupt\<close> for the exceptions that are not derived from \<^verbatim>\<open>Exception\<close>.
\<close>

datatype exn =
    UserException
  | AssertionError string
  | KeyError string
  | IndexError
  | ThreadError
  | OtherException string
  | KeyboardInterrupt

fun is_Exception :: "exn \<Rightarrow> bool" where
  "is_Exception KeyboardInterrupt = False"
| "is_Exception _ = True"

fun is_UserException :: "exn \<Rightarrow> bool" where
  "is_UserException UserException = True"
| "is_UserException _ = False"

datatype level = DEBUG | INFO | WARN | ERROR

text \<open>
  One constructor for each call that leaves the class, with the arguments the code
  passes. \<open>Log\<close> is a call of \<^verbatim>\<open>rospy.log<level>\<close>, \<open>LogThrottle\<close> of
  \<^verbatim>\<open>rospy.log<level>_throttle\<close> with its period; the message is the format string
  (the formatted arguments are left out).
\<close>

datatype call =
    Hpp
  | Manip
  | GetCurrentConfig
  | SetCurrentConfig config
  | ResetConstraints
  | GetNode config
  | GetParam string
  | PublishStateId nat
  | PublishSemantic config
  | SetConstraints nat bool
  | AddLockedJointConstraints string "string list"
  | AddNumericalConstraints string "string list" "nat list"
  | SetNumericalConstraintsLastPriorityOptional bool
  | ApplyConstraints config
  | Optimize config
  | IsConfigValid config
  | GetRobotName
  | GetJointNames
  | GetParentJointName string
  | GetLinkNames string
  | GetLinkPosition string
  | GetAllJointNames
  | SendTransform "real list" "real list" time string string
  | GetJointType string
  | GetJointConfigSize string
  | GetJointBounds string
  | CreateLockedJoint string string "real list"
  | CreateTransformationConstraint string string string "real list" "bool list"
  | CreatePositionConstraint string string string "real list" "real list" "bool list"
  | CreateOrientationConstraint string string string "real list" "bool list"
  | ScCreateScalarMultiply string real string
  | QuaternionInvToTuple "real list"
  | QuaternionTransform "real list" "real list"
  | RateSleep
  | Log level string
  | LogThrottle level nat string

text \<open>The messages of \<^verbatim>\<open>geometry_msgs\<close> and \<^verbatim>\<open>sensor_msgs\<close> the callbacks receive.\<close>

record Transform =
  translation_x :: real
  translation_y :: real
  translation_z :: real
  rotation_x :: real
  rotation_y :: real
  rotation_z :: real
  rotation_w :: real

record TransformStamped =
  header_stamp :: time
  header_frame_id :: string
  child_frame_id :: string
  transform :: Transform

record JointState =
  name :: "string list"
  position :: "real list"

subsection \<open>The environment\<close>

text \<open>
  What the outside answers during one callback. \<open>raises\<close> says, for each call, whether
  it raises instead of returning; the other fields are the values returned.
  \<open>config_after\<close> is the configuration the HPP server holds after a call that
  evaluates constraints (nothing is assumed about it).
\<close>

record env =
  raises :: "call \<Rightarrow> exn option"
  config_after :: "call \<Rightarrow> config \<Rightarrow> config"
  param_default_state_id :: nat
  param_default_constraints :: "string list"
  getNode :: "config \<Rightarrow> nat"
  applyConstraints :: "config \<Rightarrow> bool \<times> config \<times> real list"
  optimize :: "config \<Rightarrow> bool \<times> config \<times> real list"
  isConfigValid :: "config \<Rightarrow> bool \<times> string"
  getRobotName :: string
  getJointNames :: "string list"
  getParentJointName :: "string \<Rightarrow> string"
  getLinkNames :: "string \<Rightarrow> string list"
  getLinkPosition :: "string \<Rightarrow> real list"
  getAllJointNames :: "string list"
  getJointType :: "string \<Rightarrow> string"
  getJointConfigSize :: "string \<Rightarrow> int"
  getJointBounds :: "string \<Rightarrow> real list"
  Quaternion_inv_toTuple :: "real list \<Rightarrow> real list"
  Quaternion_transform :: "real list \<Rightarrow> real list \<Rightarrow> real list"

subsection \<open>The object and the world around it\<close>

text \<open>
  The attributes of \<^verbatim>\<open>self\<close>. An attribute that the code probes with \<^verbatim>\<open>hasattr\<close>
  is an option (\<open>None\<close>: not set); \<open>has_manip\<close> is \<^verbatim>\<open>hasattr(self, "manip")\<close>.
  \<open>mutex_locked\<close> is the state of \<^verbatim>\<open>self.mutex\<close>. The last two fields are the world:
  the configuration the HPP server currently holds and the calls made so far.
\<close>

record Estimation =
  locked_joints :: "string list"
  robot_name :: string
  mutex_locked :: bool
  last_stamp_is_ready :: bool
  last_stamp :: time
  last_visual_tag_constraints :: "string list"
  current_stamp :: time
  current_visual_tag_constraints :: "string list"
  visual_tags_enabled :: bool
  run_continuous_estimation :: bool
  has_manip :: bool
  last_state_id :: "nat option"
  universe_child_joint_names :: "string list option"
  model_config :: config
  trace :: "call list"

subsection \<open>Programs: state, exceptions, blocking\<close>

text \<open>
  A statement either returns, raises, or blocks for ever (acquiring a lock that is
  held, in a sequential run). \<^verbatim>\<open>finally\<close> runs after a return and after a raise, not
  after a block; mutations made before a raise stay.
\<close>

datatype 'a outcome = Return 'a | Raise exn | Block

type_synonym 'a prog = "Estimation \<Rightarrow> Estimation \<times> 'a outcome"

definition ret :: "'a \<Rightarrow> 'a prog" where
  "ret a s = (s, Return a)"

definition raise :: "exn \<Rightarrow> 'a prog" where
  "raise e s = (s, Raise e)"

definition pbind :: "'a prog \<Rightarrow> ('a \<Rightarrow> 'b prog) \<Rightarrow> 'b prog" where
  "pbind m f s =
     (case m s of
        (s1, Return a) \<Rightarrow> f a s1
      | (s1, Raise e) \<Rightarrow> (s1, Raise e)
      | (s1, Block) \<Rightarrow> (s1, Block))"

definition gets :: "(Estimation \<Rightarrow> 'a) \<Rightarrow> 'a prog" where
  "gets f s = (s, Return (f s))"

definition modify :: "(Estimation \<Rightarrow> Estimation) \<Rightarrow> unit prog" where
  "modify f s = (f s, Return ())"

definition try_except :: "'a prog \<Rightarrow> (exn \<Rightarrow> bool) \<Rightarrow> (exn \<Rightarrow> 'a prog) \<Rightarrow> 'a prog" where
  "try_except body catches handler s =
     (case body s of
        (s1, Raise e) \<Rightarrow> (if catches e then handler e s1 else (s1, Raise e))
      | r \<Rightarrow> r)"

definition try_finally :: "'a prog \<Rightarrow> unit prog \<Rightarrow> 'a prog" where
  "try_finally body fin s =
     (case body s of
        (s1, Block) \<Rightarrow> (s1, Block)
      | (s1, Return a) \<Rightarrow>
          (case fin s1 of
             (s2, Return _) \<Rightarrow> (s2, Return a)
           | (s2, Raise e) \<Rightarrow> (s2, Raise e)
           | (s2, Block) \<Rightarrow> (s2, Block))
      | (s1, Raise e) \<Rightarrow>
          (case fin s1 of
             (s2, Return _) \<Rightarrow> (s2, Raise e)
           | (s2, Raise e') \<Rightarrow> (s2, Raise e')
           | (s2, Block) \<Rightarrow> (s2, Block)))"

text \<open>\<^verbatim>\<open>for x in xs: body(x)\<close>: the first exception ends the loop.\<close>

fun for_each :: "'a list \<Rightarrow> ('a \<Rightarrow> unit prog) \<Rightarrow> unit prog" where
  "for_each [] body = ret ()"
| "for_each (x # xs) body = pbind (body x) (\<lambda>_. for_each xs body)"

text \<open>\<^verbatim>\<open>[x for x in xs if p(x)]\<close> where \<open>p\<close> calls outside.\<close>

fun filter_each :: "'a list \<Rightarrow> ('a \<Rightarrow> bool prog) \<Rightarrow> 'a list prog" where
  "filter_each [] p = ret []"
| "filter_each (x # xs) p =
     pbind (p x) (\<lambda>b. pbind (filter_each xs p) (\<lambda>ys. ret (if b then x # ys else ys)))"

text \<open>
  An external call: it is recorded, the server's configuration moves, and the
  environment decides between the returned value and an exception.
\<close>

fun server_config :: "env \<Rightarrow> call \<Rightarrow> config \<Rightarrow> config" where
  "server_config E (SetCurrentConfig q) cfg =
     (if raises E (SetCurrentConfig q) = None then q else config_after E (SetCurrentConfig q) cfg)"
| "server_config E (ApplyConstraints q) cfg = config_after E (ApplyConstraints q) cfg"
| "server_config E (Optimize q) cfg = config_after E (Optimize q) cfg"
| "server_config E (IsConfigValid q) cfg = config_after E (IsConfigValid q) cfg"
| "server_config E (GetNode q) cfg = config_after E (GetNode q) cfg"
| "server_config E _ cfg = cfg"

definition ext :: "env \<Rightarrow> call \<Rightarrow> 'a \<Rightarrow> 'a prog" where
  "ext E c v s =
     (s\<lparr>model_config := server_config E c (model_config s), trace := trace s @ [c]\<rparr>,
      case raises E c of None \<Rightarrow> Return v | Some e \<Rightarrow> Raise e)"

text \<open>Logging is recorded and does not raise.\<close>

definition rospy_log :: "call \<Rightarrow> unit prog" where
  "rospy_log c s = (s\<lparr>trace := trace s @ [c]\<rparr>, Return ())"

text \<open>\<^verbatim>\<open>Lock.acquire()\<close> and \<^verbatim>\<open>Lock.release()\<close> of \<^verbatim>\<open>threading\<close>.\<close>

definition mutex_acquire :: "unit prog" where
  "mutex_acquire s = (if mutex_locked s then (s, Block) else (s\<lparr>mutex_locked := True\<rparr>, Return ()))"

definition mutex_release :: "unit prog" where
  "mutex_release s =
     (if mutex_locked s then (s\<lparr>mutex_locked := False\<rparr>, Return ()) else (s, Raise ThreadError))"

text \<open>Python helpers: \<^verbatim>\<open>str.startswith\<close>, \<^verbatim>\<open>xs[i]\<close> on a list, \<^verbatim>\<open>numpy.linalg.norm\<close>.\<close>

definition startswith :: "string \<Rightarrow> string \<Rightarrow> bool" where
  "startswith s p = (take (length p) s = p)"

definition index :: "'a list \<Rightarrow> nat \<Rightarrow> 'a prog" where
  "index xs i = (if i < length xs then ret (xs ! i) else raise IndexError)"

definition norm_vec :: "real list \<Rightarrow> real" where
  "norm_vec v = sqrt (sum_list (map (\<lambda>x. x * x) v))"

subsection \<open>\<^verbatim>\<open>_get_transformation_constraint\<close>\<close>

definition get_transformation_constraint ::
  "env \<Rightarrow> string \<Rightarrow> string \<Rightarrow> Transform \<Rightarrow> string \<Rightarrow> real \<Rightarrow> string list prog" where
  "get_transformation_constraint E joint1 joint2 tf prefix orientationWeight =
     pbind (ext E Hpp ()) (\<lambda>_.
     pbind (gets robot_name) (\<lambda>rn.
       let j1 = (if CHR ''/'' \<in> set joint1 then joint1 else rn @ ''/'' @ joint1);
           j2 = (if CHR ''/'' \<in> set joint2 then joint2 else rn @ ''/'' @ joint2);
           name = prefix @ j1 @ ''_'' @ j2;
           T = [translation_x tf, translation_y tf, translation_z tf,
                rotation_x tf, rotation_y tf, rotation_z tf, rotation_w tf]
       in
         if orientationWeight = 1 then
           (let names = [''T_'' @ name] in
            pbind (ext E (CreateTransformationConstraint (names ! 0) j1 j2 T (replicate 6 True)) ())
              (\<lambda>_. ret names))
         else
           (let names = [''P_'' @ name, ''sO_'' @ name] in
            pbind (ext E (CreatePositionConstraint (names ! 0) j1 j2 (take 3 T) [0, 0, 0]
                            (replicate 3 True)) ()) (\<lambda>_.
            pbind (ext E (QuaternionInvToTuple (drop 3 T)) (Quaternion_inv_toTuple E (drop 3 T)))
              (\<lambda>qinv.
            pbind (ext E (CreateOrientationConstraint (''O_'' @ name) j1 j2 qinv (replicate 3 True)) ())
              (\<lambda>_.
            pbind (ext E (ScCreateScalarMultiply (names ! 1) orientationWeight (''O_'' @ name)) ())
              (\<lambda>_. ret names))))))) "

subsection \<open>The frame aggregator: \<^verbatim>\<open>get_visual_tag\<close> and \<^verbatim>\<open>get_base_pose_estimation\<close>\<close>

text \<open>
  The roll-over both callbacks perform: the open frame becomes the last (ready) one and
  a new, empty open frame starts at \<open>stamp\<close>.
\<close>

definition rollover :: "time \<Rightarrow> Estimation \<Rightarrow> Estimation" where
  "rollover stamp s =
     s\<lparr>last_stamp := current_stamp s,
       last_visual_tag_constraints := current_visual_tag_constraints s,
       current_stamp := stamp,
       current_visual_tag_constraints := [],
       last_stamp_is_ready := True\<rparr>"

definition extend_current :: "string list \<Rightarrow> Estimation \<Rightarrow> Estimation" where
  "extend_current names s =
     s\<lparr>current_visual_tag_constraints := current_visual_tag_constraints s @ names\<rparr>"

text \<open>
  The suite of the \<^verbatim>\<open>try\<close> of \<^verbatim>\<open>get_visual_tag\<close> (it starts with the acquisition of
  the mutex); \<open>s\<close> is the orientation weight computed before it.
\<close>

definition get_visual_tag_try :: "env \<Rightarrow> TransformStamped \<Rightarrow> real \<Rightarrow> unit prog" where
  "get_visual_tag_try E ts_msg s =
     (let stamp = header_stamp ts_msg in
      pbind mutex_acquire (\<lambda>_.
      pbind (get_transformation_constraint E (header_frame_id ts_msg) (child_frame_id ts_msg)
               (transform ts_msg) [] s) (\<lambda>names.
      pbind (gets current_stamp) (\<lambda>cur.
      pbind (if cur < stamp then modify (rollover stamp) else ret ()) (\<lambda>_.
      modify (extend_current names))))))"

definition get_visual_tag :: "env \<Rightarrow> TransformStamped \<Rightarrow> unit prog" where
  "get_visual_tag E ts_msg =
     (let stamp = header_stamp ts_msg in
      pbind (gets current_stamp) (\<lambda>cur.
      if stamp < cur then ret ()
      else
        (let rot = transform ts_msg;
             distW = 1;
             quat = [rotation_x rot, rotation_y rot, rotation_z rot, rotation_w rot]
         in
         pbind (ext E (QuaternionTransform quat [0, 0, 1]) (Quaternion_transform E quat [0, 0, 1]))
           (\<lambda>v.
         pbind (index v 2) (\<lambda>v2.
         let oriW = - v2;
             tagsize = 0.063 * 4;
             s = tagsize * oriW * distW
         in
         try_finally (get_visual_tag_try E ts_msg s) mutex_release)))))"

text \<open>The suite of the \<^verbatim>\<open>try\<close> of \<^verbatim>\<open>get_base_pose_estimation\<close>.\<close>

definition get_base_pose_estimation_try :: "env \<Rightarrow> TransformStamped \<Rightarrow> unit prog" where
  "get_base_pose_estimation_try E ts_msg =
     (let stamp = header_stamp ts_msg in
      pbind (ext E Hpp ()) (\<lambda>_.
      pbind (ext E GetRobotName (getRobotName E)) (\<lambda>rname.
      pbind (get_transformation_constraint E ''universe'' (rname @ ''/root_joint'')
               (transform ts_msg) ''base/'' 1) (\<lambda>names.
      pbind (index names 0) (\<lambda>n0.
      pbind (gets current_visual_tag_constraints) (\<lambda>cvtc.
      pbind (if n0 \<notin> set cvtc then modify (extend_current names) else ret ()) (\<lambda>_.
      pbind (gets visual_tags_enabled) (\<lambda>vte.
      if \<not> vte then modify (rollover stamp) else ret ()))))))))"

definition get_base_pose_estimation :: "env \<Rightarrow> TransformStamped \<Rightarrow> unit prog" where
  "get_base_pose_estimation E ts_msg =
     (let stamp = header_stamp ts_msg in
      pbind (gets current_stamp) (\<lambda>cur.
      if stamp < cur then ret ()
      else
        pbind mutex_acquire (\<lambda>_.
        try_finally (get_base_pose_estimation_try E ts_msg) mutex_release)))"

subsection \<open>\<^verbatim>\<open>get_joint_state\<close>\<close>

text \<open>The body of the loop over \<^verbatim>\<open>zip(js_msg.name, js_msg.position)\<close>.\<close>

definition joint_state_body :: "env \<Rightarrow> string \<Rightarrow> string \<times> real \<Rightarrow> unit prog" where
  "joint_state_body E rname jq =
     (let jn = fst jq; q = snd jq; name = rname @ jn in
      pbind (ext E (GetJointType name) (getJointType E name)) (\<lambda>jt.
      pbind
        (if startswith jt ''JointModelRUB'' then
           pbind (ext E (GetJointConfigSize name) (getJointConfigSize E name)) (\<lambda>sz.
           if sz = 2 then ret [cos q, sin q]
           else raise (AssertionError (name @ '' is not of size 2'')))
         else
           pbind (ext E (GetJointConfigSize name) (getJointConfigSize E name)) (\<lambda>sz.
           if sz = 1 then
             pbind (ext E (GetJointBounds name) (getJointBounds E name)) (\<lambda>bounds.
             pbind (index bounds 0) (\<lambda>b0.
             pbind (if q - b0 < - 0.001 then ret True
                    else pbind (index bounds 1) (\<lambda>b1. ret (q - b1 > 0.001))) (\<lambda>out_of_bounds.
             pbind (if out_of_bounds
                    then rospy_log (LogThrottle WARN 1 ''Current state {1} of joint {0} out of bounds {2}'')
                    else ret ()) (\<lambda>_.
             pbind (index bounds 1) (\<lambda>b1.
             ret [min b1 (max b0 q)])))))
           else raise (AssertionError (name @ '' is not of size 1''))))
        (\<lambda>qjoint. ext E (CreateLockedJoint (''lock_'' @ name) name qjoint) ())))"

text \<open>The \<^verbatim>\<open>try\<close> of \<^verbatim>\<open>get_joint_state\<close> with its \<^verbatim>\<open>except UserException\<close>.\<close>

definition get_joint_state_try :: "env \<Rightarrow> JointState \<Rightarrow> unit prog" where
  "get_joint_state_try E js_msg =
     try_except
       (pbind (ext E Hpp ()) (\<lambda>_.
        pbind (ext E GetRobotName (getRobotName E)) (\<lambda>rn.
        let rname = (if length rn > 0 then rn @ ''/'' else rn) in
        pbind (for_each (zip (name js_msg) (position js_msg)) (joint_state_body E rname)) (\<lambda>_.
        pbind (gets locked_joints) (\<lambda>lj.
        if length lj = 0
        then modify (\<lambda>s. s\<lparr>locked_joints := map (\<lambda>n. ''lock_'' @ rname @ n) (name js_msg)\<rparr>)
        else ret ())))))
       is_UserException
       (\<lambda>e. rospy_log (Log ERROR ''Cannot get joint state: {0}''))"

definition get_joint_state :: "env \<Rightarrow> JointState \<Rightarrow> unit prog" where
  "get_joint_state E js_msg =
     pbind mutex_acquire (\<lambda>_.
     try_finally (get_joint_state_try E js_msg) mutex_release)"

subsection \<open>\<^verbatim>\<open>_initialize_constraints\<close>\<close>

text \<open>
  The \<^verbatim>\<open>try\<close> that guesses the current state of the graph: the node of the current
  configuration, else the state of the last cycle, else the ROS parameter
  \<^verbatim>\<open>default_state_id\<close>.
\<close>

definition resolve_state :: "env \<Rightarrow> config \<Rightarrow> nat prog" where
  "resolve_state E q_current =
     try_except
       (pbind (ext E (GetNode q_current) (getNode E q_current)) (\<lambda>state_id.
        pbind (rospy_log (LogThrottle INFO 1 ''At {0}, current state: {1}'')) (\<lambda>_.
        ret state_id)))
       is_UserException
       (\<lambda>e. pbind (gets last_state_id) (\<lambda>cached.
          case cached of
            Some state_id \<Rightarrow>
              pbind (rospy_log (LogThrottle WARN 1 ''At {0}, assumed last state: {1}'')) (\<lambda>_.
              ret state_id)
          | None \<Rightarrow>
              pbind (ext E (GetParam ''default_state_id'') (param_default_state_id E))
                (\<lambda>state_id.
              pbind (rospy_log (LogThrottle WARN 1
                       ''At {0}, assumed default current state: {1}'')) (\<lambda>_.
              ret state_id))))"

text \<open>
  What follows the \<^verbatim>\<open>try\<close> in the branch of the manipulation graph: the state is
  remembered, published, and its constraints are copied.
\<close>

definition apply_state :: "env \<Rightarrow> nat \<Rightarrow> unit prog" where
  "apply_state E state_id =
     pbind (modify (\<lambda>s. s\<lparr>last_state_id := Some state_id\<rparr>)) (\<lambda>_.
     pbind (ext E (PublishStateId state_id) ()) (\<lambda>_.
     pbind (ext E (SetConstraints state_id True) ()) (\<lambda>_.
     pbind (gets locked_joints) (\<lambda>lj.
     ext E (AddLockedJointConstraints ''unused'' lj) ()))))"

text \<open>The end of \<^verbatim>\<open>_initialize_constraints\<close>: the constraints of the last frame.\<close>

definition add_visual_tag_constraints :: "env \<Rightarrow> unit prog" where
  "add_visual_tag_constraints E =
     pbind (gets last_visual_tag_constraints) (\<lambda>lv.
     if length lv > 0 then
       pbind (rospy_log (LogThrottle INFO 1 ''Adding {0}'')) (\<lambda>_.
       pbind (ext E (AddNumericalConstraints ''unused'' lv (map (\<lambda>_. 1) lv)) ()) (\<lambda>_.
       ext E (SetNumericalConstraintsLastPriorityOptional True) ()))
     else ret ())"

definition initialize_constraints :: "env \<Rightarrow> config \<Rightarrow> unit prog" where
  "initialize_constraints E q_current =
     pbind (ext E Hpp ()) (\<lambda>_.
     pbind (ext E ResetConstraints ()) (\<lambda>_.
     pbind (gets has_manip) (\<lambda>hm.
     pbind
       (if hm then
          pbind (ext E Manip ()) (\<lambda>_.
          pbind (resolve_state E q_current) (\<lambda>state_id.
          apply_state E state_id))
        else
          pbind (ext E (GetParam ''default_constraints'') (param_default_constraints E)) (\<lambda>dc.
          pbind (gets locked_joints) (\<lambda>lj.
          pbind (ext E (AddLockedJointConstraints ''unused'' lj) ()) (\<lambda>_.
          ext E (AddNumericalConstraints ''constraints'' dc (map (\<lambda>_. 0) dc)) ()))))
       (\<lambda>_.
     add_visual_tag_constraints E))))"

subsection \<open>\<^verbatim>\<open>publish_state\<close>\<close>

definition publish_state :: "env \<Rightarrow> unit prog" where
  "publish_state E =
     pbind (ext E GetRobotName (getRobotName E)) (\<lambda>rname.
     pbind (gets universe_child_joint_names) (\<lambda>cached.
     pbind
       (case cached of
          Some jns \<Rightarrow> ret jns
        | None \<Rightarrow>
            pbind (ext E GetJointNames (getJointNames E)) (\<lambda>all.
            pbind (filter_each all (\<lambda>jn.
                     pbind (ext E (GetParentJointName jn) (getParentJointName E jn)) (\<lambda>parent.
                     ret (''universe'' = parent)))) (\<lambda>jns.
            pbind (modify (\<lambda>s. s\<lparr>universe_child_joint_names := Some jns\<rparr>)) (\<lambda>_.
            pbind (rospy_log (Log INFO ''Will publish joints {0}'')) (\<lambda>_.
            ret jns)))))
       (\<lambda>jns.
     pbind (for_each jns (\<lambda>jn.
              pbind (ext E (GetLinkNames jn) (getLinkNames E jn)) (\<lambda>links.
              for_each links (\<lambda>l.
                pbind (ext E (GetLinkPosition l) (getLinkPosition E l)) (\<lambda>T.
                let nm = (if startswith l rname then drop (length rname + 1) l else l) in
                pbind (gets last_stamp) (\<lambda>stamp.
                ext E (SendTransform (take 3 T) (take 4 (drop 3 T)) stamp nm ''world'') ())))))) (\<lambda>_.
     pbind (ext E GetAllJointNames (getAllJointNames E)) (\<lambda>all_joints.
     let robot_joints = filter (\<lambda>x. startswith x rname) all_joints in
     for_each robot_joints (\<lambda>jn.
       pbind (ext E (GetLinkNames jn) (getLinkNames E jn)) (\<lambda>links.
       for_each links (\<lambda>nm.
         pbind (ext E (GetLinkPosition nm) (getLinkPosition E nm)) (\<lambda>T.
         pbind (gets last_stamp) (\<lambda>stamp.
         ext E (SendTransform (take 3 T) (take 4 (drop 3 T)) stamp nm ''world'') ()))))))))))"

subsection \<open>\<^verbatim>\<open>estimation\<close>, \<^verbatim>\<open>continuous_estimation\<close> and \<^verbatim>\<open>spin\<close>\<close>

text \<open>The \<^verbatim>\<open>try\<close> of \<^verbatim>\<open>estimation\<close> with its \<^verbatim>\<open>except Exception\<close>.\<close>

definition estimation_try :: "env \<Rightarrow> unit prog" where
  "estimation_try E =
     try_except
        (pbind (ext E Hpp ()) (\<lambda>_.
         pbind (ext E GetCurrentConfig ()) (\<lambda>_.
         pbind (gets model_config) (\<lambda>q_current.
         pbind (initialize_constraints E q_current) (\<lambda>_.
         pbind (ext E (ApplyConstraints q_current) (applyConstraints E q_current)) (\<lambda>r.
         let projOk = fst r; q_projected = fst (snd r) in
         if projOk then
           pbind (ext E (Optimize q_projected) (optimize E q_projected)) (\<lambda>r'.
           let optOk = fst r'; q_estimated = fst (snd r'); error = snd (snd r') in
           pbind
             (if \<not> optOk then
                (let errNorm = norm_vec error in
                 pbind
                   (if errNorm > 0.01 then
                      pbind (rospy_log (LogThrottle WARN 1 ''Optimisation failed ? error norm: {0}''))
                        (\<lambda>_.
                      rospy_log (LogThrottle DEBUG 1 ''estimated == projected: {0}''))
                    else rospy_log (LogThrottle INFO 1 ''Optimisation failed ? error norm: {0}''))
                   (\<lambda>_.
                 rospy_log (LogThrottle DEBUG 1 ''Error {0}'')))
              else ret ()) (\<lambda>_.
           pbind (ext E (IsConfigValid q_estimated) (isConfigValid E q_estimated)) (\<lambda>v.
           pbind (if \<not> fst v then rospy_log (LogThrottle WARN 1 ''Estimation in collision: {0}'')
                  else ret ()) (\<lambda>_.
           pbind (ext E (PublishSemantic q_estimated) ()) (\<lambda>_.
           publish_state E)))))
         else
           pbind (ext E (SetCurrentConfig q_current) ()) (\<lambda>_.
           rospy_log (LogThrottle WARN 1 ''Could not apply the constraints {0}''))))))))
        is_Exception
        (\<lambda>e. pbind (rospy_log (LogThrottle ERROR 1 ''str(e)'')) (\<lambda>_.
              rospy_log (LogThrottle ERROR 1 ''traceback.format_exc()'')))"

definition estimation :: "env \<Rightarrow> unit prog" where
  "estimation E =
     pbind mutex_acquire (\<lambda>_.
     try_finally (estimation_try E)
       (pbind (modify (\<lambda>s. s\<lparr>last_stamp_is_ready := False\<rparr>)) (\<lambda>_. mutex_release)))"

definition continuous_estimation :: "bool \<Rightarrow> (bool \<times> string) prog" where
  "continuous_estimation msg_data =
     pbind (modify (\<lambda>s. s\<lparr>run_continuous_estimation := msg_data\<rparr>)) (\<lambda>_.
     pbind (rospy_log (Log INFO ''Run continuous estimation: {0}'')) (\<lambda>_.
     ret (True, ''ok'')))"

text \<open>One turn of the loop of \<^verbatim>\<open>spin\<close>.\<close>

definition spin_body :: "env \<Rightarrow> unit prog" where
  "spin_body E =
     pbind (gets (\<lambda>s. run_continuous_estimation s \<and> last_stamp_is_ready s)) (\<lambda>go.
     pbind (if go then pbind (rospy_log (Log DEBUG ''Runnning estimation...'')) (\<lambda>_. estimation E)
            else rospy_log (Log DEBUG
                   ''run continuous estimation.run_continuous_estimation={0}, last_stamp_is_ready={1}''))
       (\<lambda>_.
     ext E RateSleep ()))"

text \<open>
  \<^verbatim>\<open>spin\<close>: the list holds the environment of each turn taken before
  \<^verbatim>\<open>rospy.is_shutdown()\<close> answers true.
\<close>

fun spin :: "env list \<Rightarrow> unit prog" where
  "spin [] = ret ()"
| "spin (E # Es) = pbind (spin_body E) (\<lambda>_. spin Es)"

text \<open>
  The object \<^verbatim>\<open>__init__\<close> leaves: \<open>now1\<close> and \<open>now2\<close> are its two readings of
  \<^verbatim>\<open>rospy.Time.now()\<close>, \<open>rname\<close> the ROS parameter \<^verbatim>\<open>robot_name\<close>, \<open>cfg\<close> the
  configuration the server holds at that time.
\<close>

definition init :: "time \<Rightarrow> time \<Rightarrow> string \<Rightarrow> bool \<Rightarrow> bool \<Rightarrow> bool \<Rightarrow> config \<Rightarrow> Estimation" where
  "init now1 now2 rname cont tags_enabled manip cfg =
     fst (continuous_estimation cont
       \<lparr>locked_joints = [], robot_name = rname, mutex_locked = False,
        last_stamp_is_ready = False, last_stamp = now1, last_visual_tag_constraints = [],
        current_stamp = now2, current_visual_tag_constraints = [],
        visual_tags_enabled = tags_enabled, run_continuous_estimation = False,
        has_manip = manip, last_state_id = None, universe_child_joint_names = None,
        model_config = cfg, trace = []\<rparr>)"

subsection \<open>Runs of the tag callback\<close>

text \<open>
  A run of \<^verbatim>\<open>get_visual_tag\<close> over a sequence of detections, each with the environment
  it meets. A callback seals a frame exactly when it moves the stamp of the open
  frame; \<open>sealed_stamps\<close> lists the stamps of the frames sealed, in order.
\<close>

fun sealed_stamps :: "(env \<times> TransformStamped) list \<Rightarrow> Estimation \<Rightarrow> time list" where
  "sealed_stamps [] s = []"
| "sealed_stamps (d # ds) s =
     (let s' = fst (get_visual_tag (fst d) (snd d) s) in
      (if current_stamp s' \<noteq> current_stamp s then [last_stamp s'] else [])
      @ sealed_stamps ds s')"

subsection \<open>What a program may change\<close>

text \<open>
  \<open>steps R p\<close>: from every state, \<open>p\<close> ends (it returns or raises, it does not block)
  in a state related to the first by \<open>R\<close>.
\<close>

definition steps :: "(Estimation \<Rightarrow> Estimation \<Rightarrow> bool) \<Rightarrow> 'a prog \<Rightarrow> bool" where
  "steps R p = (\<forall>s. R s (fst (p s)) \<and> snd (p s) \<noteq> Block)"

definition preorder_on_states :: "(Estimation \<Rightarrow> Estimation \<Rightarrow> bool) \<Rightarrow> bool" where
  "preorder_on_states R = ((\<forall>s. R s s) \<and> (\<forall>a b c. R a b \<longrightarrow> R b c \<longrightarrow> R a c))"

text \<open>\<open>quiet\<close>: the mutex is as it was and the trace has only grown.\<close>

definition quiet :: "Estimation \<Rightarrow> Estimation \<Rightarrow> bool" where
  "quiet s s' = (mutex_locked s' = mutex_locked s \<and> (\<exists>ev. trace s' = trace s @ ev))"

text \<open>\<open>outside\<close>: only the world has changed, no attribute of the object.\<close>

definition outside :: "Estimation \<Rightarrow> Estimation \<Rightarrow> bool" where
  "outside s s' = (\<exists>cfg ev. s' = s\<lparr>model_config := cfg, trace := trace s @ ev\<rparr>)"

subsection \<open>Example environments\<close>

text \<open>
  The rotation of a vector by a unit quaternion \<open>[x, y, z, w]\<close> and the inverse of a
  unit quaternion: what the helper \<^verbatim>\<open>hpp.Quaternion\<close> computes, used in the example
  environment below.
\<close>

fun quaternion_transform :: "real list \<Rightarrow> real list \<Rightarrow> real list" where
  "quaternion_transform [x, y, z, w] [a, b, c] =
     [(1 - 2 * (y * y + z * z)) * a + 2 * (x * y - z * w) * b + 2 * (x * z + y * w) * c,
      2 * (x * y + z * w) * a + (1 - 2 * (x * x + z * z)) * b + 2 * (y * z - x * w) * c,
      2 * (x * z - y * w) * a + 2 * (y * z + x * w) * b + (1 - 2 * (x * x + y * y)) * c]"
| "quaternion_transform _ _ = []"

fun quaternion_inv :: "real list \<Rightarrow> real list" where
  "quaternion_inv [x, y, z, w] = [- x, - y, - z, w]"
| "quaternion_inv _ = []"

text \<open>
  An environment in which no call raises: a robot \<^verbatim>\<open>r\<close> with one-dimensional joints
  bounded by 0 and 1, a graph whose current node is 3, default state 7, and a solver
  whose projection and optimisation succeed and return the configuration given.
\<close>

definition env_ok :: env where
  "env_ok =
     \<lparr>raises = (\<lambda>_. None), config_after = (\<lambda>_ cfg. cfg),
      param_default_state_id = 7, param_default_constraints = [],
      getNode = (\<lambda>_. 3),
      applyConstraints = (\<lambda>q. (True, q, [])),
      optimize = (\<lambda>q. (True, q, [])),
      isConfigValid = (\<lambda>_. (True, [])),
      getRobotName = ''r'', getJointNames = [], getParentJointName = (\<lambda>_. ''universe''),
      getLinkNames = (\<lambda>_. []), getLinkPosition = (\<lambda>_. []), getAllJointNames = [],
      getJointType = (\<lambda>_. ''JointModelRZ''), getJointConfigSize = (\<lambda>_. 1),
      getJointBounds = (\<lambda>_. [0, 1]),
      Quaternion_inv_toTuple = quaternion_inv,
      Quaternion_transform = quaternion_transform\<rparr>"

text \<open>A detection at time \<open>t\<close> of a tag seen by the camera, the rotation being the identity.\<close>

definition tag_at :: "time \<Rightarrow> TransformStamped" where
  "tag_at t =
     \<lparr>header_stamp = t, header_frame_id = ''camera'', child_frame_id = ''tag'',
      transform = \<lparr>translation_x = 0, translation_y = 0, translation_z = 1,
                   rotation_x = 0, rotation_y = 0, rotation_z = 0, rotation_w = 1\<rparr>\<rparr>"

text \<open>The robot answers that every joint has a configuration of size 3.\<close>

definition env_wrong_size :: env where
  "env_wrong_size = env_ok\<lparr>getJointConfigSize := (\<lambda>_. 3)\<rparr>"

text \<open>The server cannot be reached when the current configuration is asked for.\<close>

definition env_no_config :: env where
  "env_no_config =
     env_ok\<lparr>raises := (\<lambda>c. if c = GetCurrentConfig then Some (OtherException ''COMM_FAILURE'')
                          else None)\<rparr>"

text \<open>A joint state message for the single joint \<^verbatim>\<open>j\<close>.\<close>

definition one_joint :: "real \<Rightarrow> JointState" where
  "one_joint q = \<lparr>name = [''j''], position = [q]\<rparr>"

text \<open>
  The object after \<^verbatim>\<open>__init__\<close> at time 10 (robot \<^verbatim>\<open>r\<close>, continuous estimation, visual
  tags enabled, manipulation graph), and the same with a sealed frame waiting.
\<close>

definition node0 :: Estimation where
  "node0 = init 10 10 ''r'' True True True []"

definition node_ready :: Estimation where
  "node_ready = node0\<lparr>last_stamp_is_ready := True\<rparr>"

text \<open>A transform: one unit along the z axis, no rotation.\<close>

definition tf0 :: Transform where
  "tf0 = \<lparr>translation_x = 0, translation_y = 0, translation_z = 1,
                   rotation_x = 0, rotation_y = 0, rotation_z = 0, rotation_w = 1\<rparr>"

text \<open>A base pose estimation at time \<open>t\<close>, and the object of above with visual tags disabled.\<close>

definition base_pose_at :: "time \<Rightarrow> TransformStamped" where
  "base_pose_at t =
     \<lparr>header_stamp = t, header_frame_id = ''world'', child_frame_id = ''base'', transform = tf0\<rparr>"

definition node_no_tags :: Estimation where
  "node_no_tags = init 10 10 ''r'' True False True []"

text \<open>
  The graph knows no node for the configuration (\<^verbatim>\<open>getNode\<close> raises \<^verbatim>\<open>UserException\<close>);
  and the object of above with the state 5 cached.
\<close>

definition env_lost :: env where
  "env_lost =
     env_ok\<lparr>raises := (\<lambda>c. case c of GetNode _ \<Rightarrow> Some UserException | _ \<Rightarrow> None)\<rparr>"

definition node_cached :: Estimation where
  "node_cached = node0\<lparr>last_state_id := Some 5\<rparr>"

text \<open>
  The projection fails, and every call that evaluates constraints leaves the server at
  the configuration \<open>[42]\<close>.
\<close>

definition env_no_projection :: env where
  "env_no_projection =
     env_ok\<lparr>applyConstraints := (\<lambda>q. (False, q, [1])), config_after := (\<lambda>_ _. [42])\<rparr>"

text \<open>The optimisation reports a failure, with the residual \<open>r\<close>.\<close>

definition env_no_optimum :: "real list \<Rightarrow> env" where
  "env_no_optimum r = env_ok\<lparr>optimize := (\<lambda>q. (False, q, r))\<rparr>"

section \<open>Properties\<close>

subsection \<open>Rules for \<open>steps\<close>\<close>

lemma stepsD:
  assumes "steps R p"
  shows "R s (fst (p s))" and "snd (p s) \<noteq> Block"
  using assms unfolding steps_def by auto

lemma steps_ret: "preorder_on_states R \<Longrightarrow> steps R (ret a)"
  by (simp add: steps_def ret_def preorder_on_states_def)

lemma steps_raise: "preorder_on_states R \<Longrightarrow> steps R (raise e)"
  by (simp add: steps_def raise_def preorder_on_states_def)

lemma steps_gets: "preorder_on_states R \<Longrightarrow> steps R (gets f)"
  by (simp add: steps_def gets_def preorder_on_states_def)

lemma steps_index: "preorder_on_states R \<Longrightarrow> steps R (index xs i)"
  by (simp add: index_def steps_ret steps_raise)

lemma steps_modify: "(\<And>s. R s (f s)) \<Longrightarrow> steps R (modify f)"
  by (simp add: steps_def modify_def)

lemma steps_ext:
  "(\<And>s. R s (s\<lparr>model_config := server_config E c (model_config s), trace := trace s @ [c]\<rparr>))
   \<Longrightarrow> steps R (ext E c v)"
  by (simp add: steps_def ext_def split: option.splits)

lemma steps_log: "(\<And>s. R s (s\<lparr>trace := trace s @ [c]\<rparr>)) \<Longrightarrow> steps R (rospy_log c)"
  by (simp add: steps_def rospy_log_def)

lemma steps_pbind:
  assumes R: "preorder_on_states R" and m: "steps R m" and f: "\<And>a. steps R (f a)"
  shows "steps R (pbind m f)"
proof -
  have tr: "\<And>a b c. R a b \<Longrightarrow> R b c \<Longrightarrow> R a c"
    using R unfolding preorder_on_states_def by blast
  show ?thesis
    unfolding steps_def
  proof
    fix s
    obtain s1 r where ms: "m s = (s1, r)" by (cases "m s")
    have 1: "R s s1" and 2: "r \<noteq> Block"
      using stepsD[OF m, of s] ms by simp_all
    show "R s (fst (pbind m f s)) \<and> snd (pbind m f s) \<noteq> Block"
    proof (cases r)
      case (Return a)
      have "R s1 (fst (f a s1))" "snd (f a s1) \<noteq> Block"
        using stepsD[OF f[of a], of s1] by simp_all
      then show ?thesis using ms Return 1 tr by (auto simp: pbind_def)
    next
      case (Raise e)
      then show ?thesis using ms 1 by (simp add: pbind_def)
    next
      case Block
      then show ?thesis using 2 by simp
    qed
  qed
qed

lemma steps_try_except:
  assumes R: "preorder_on_states R" and m: "steps R body" and h: "\<And>e. steps R (handler e)"
  shows "steps R (try_except body catches handler)"
proof -
  have tr: "\<And>a b c. R a b \<Longrightarrow> R b c \<Longrightarrow> R a c"
    using R unfolding preorder_on_states_def by blast
  show ?thesis
    unfolding steps_def
  proof
    fix s
    obtain s1 r where ms: "body s = (s1, r)" by (cases "body s")
    have 1: "R s s1" and 2: "r \<noteq> Block"
      using stepsD[OF m, of s] ms by simp_all
    show "R s (fst (try_except body catches handler s))
          \<and> snd (try_except body catches handler s) \<noteq> Block"
    proof (cases r)
      case (Return a)
      then show ?thesis using ms 1 by (simp add: try_except_def)
    next
      case (Raise e)
      have "R s1 (fst (handler e s1))" "snd (handler e s1) \<noteq> Block"
        using stepsD[OF h[of e], of s1] by simp_all
      then show ?thesis using ms Raise 1 tr by (auto simp: try_except_def)
    next
      case Block
      then show ?thesis using 2 by simp
    qed
  qed
qed

lemma steps_try_finally:
  assumes R: "preorder_on_states R" and m: "steps R body" and h: "steps R fin"
  shows "steps R (try_finally body fin)"
proof -
  have tr: "\<And>a b c. R a b \<Longrightarrow> R b c \<Longrightarrow> R a c"
    using R unfolding preorder_on_states_def by blast
  show ?thesis
    unfolding steps_def
  proof
    fix s
    obtain s1 r where ms: "body s = (s1, r)" by (cases "body s")
    have 1: "R s s1" and 2: "r \<noteq> Block"
      using stepsD[OF m, of s] ms by simp_all
    obtain s2 r2 where fs: "fin s1 = (s2, r2)" by (cases "fin s1")
    have 3: "R s1 s2" and 4: "r2 \<noteq> Block"
      using stepsD[OF h, of s1] fs by simp_all
    have 5: "R s s2" using 1 3 tr by blast
    show "R s (fst (try_finally body fin s)) \<and> snd (try_finally body fin s) \<noteq> Block"
      using ms fs 2 4 5 by (cases r; cases r2) (simp_all add: try_finally_def)
  qed
qed

lemma steps_for_each:
  assumes R: "preorder_on_states R" and b: "\<And>x. steps R (body x)"
  shows "steps R (for_each xs body)"
  by (induction xs) (simp_all add: steps_ret R steps_pbind b)

lemma steps_filter_each:
  assumes R: "preorder_on_states R" and b: "\<And>x. steps R (p x)"
  shows "steps R (filter_each xs p)"
  by (induction xs) (simp_all add: steps_ret R steps_pbind b)

lemma steps_if: "steps R a \<Longrightarrow> steps R b \<Longrightarrow> steps R (if c then a else b)"
  by simp

lemma steps_case_option:
  "steps R a \<Longrightarrow> (\<And>y. steps R (b y)) \<Longrightarrow> steps R (case x of None \<Rightarrow> a | Some y \<Rightarrow> b y)"
  by (cases x) simp_all

subsection \<open>Programs that leave the mutex alone\<close>

lemma preorder_quiet: "preorder_on_states quiet"
  by (auto simp: preorder_on_states_def quiet_def)

lemmas steps_quiet =
  steps_ret[OF preorder_quiet] steps_raise[OF preorder_quiet] steps_gets[OF preorder_quiet]
  steps_index[OF preorder_quiet] steps_pbind[OF preorder_quiet] steps_try_except[OF preorder_quiet]
  steps_try_finally[OF preorder_quiet] steps_for_each[OF preorder_quiet]
  steps_filter_each[OF preorder_quiet] steps_if steps_case_option

lemma quiet_ext: "steps quiet (ext E c v)"
  by (rule steps_ext) (simp add: quiet_def)

lemma quiet_log: "steps quiet (rospy_log c)"
  by (rule steps_log) (simp add: quiet_def)

lemma quiet_get_transformation_constraint:
  "steps quiet (get_transformation_constraint E j1 j2 tf p w)"
  unfolding get_transformation_constraint_def Let_def
  by (intro steps_quiet quiet_ext)

lemma quiet_publish_state: "steps quiet (publish_state E)"
  unfolding publish_state_def Let_def
  by (intro steps_quiet quiet_ext quiet_log steps_modify; simp add: quiet_def)

lemma quiet_initialize_constraints: "steps quiet (initialize_constraints E q)"
  unfolding initialize_constraints_def resolve_state_def apply_state_def
    add_visual_tag_constraints_def Let_def
  by (intro steps_quiet quiet_ext quiet_log steps_modify; simp add: quiet_def)

lemma quiet_joint_state_body: "steps quiet (joint_state_body E rn jq)"
  unfolding joint_state_body_def Let_def
  by (intro steps_quiet quiet_ext quiet_log)

lemma quiet_get_joint_state_try: "steps quiet (get_joint_state_try E js)"
  unfolding get_joint_state_try_def Let_def
  by (intro steps_quiet quiet_ext quiet_log quiet_joint_state_body steps_modify;
      simp add: quiet_def)

lemma quiet_estimation_try: "steps quiet (estimation_try E)"
  unfolding estimation_try_def Let_def
  by (intro steps_quiet quiet_ext quiet_log quiet_publish_state quiet_initialize_constraints)

lemma quiet_get_base_pose_estimation_try: "steps quiet (get_base_pose_estimation_try E m)"
  unfolding get_base_pose_estimation_try_def Let_def
  by (intro steps_quiet quiet_ext quiet_get_transformation_constraint steps_modify;
      simp add: quiet_def rollover_def extend_current_def)

subsection \<open>The critical sections\<close>

lemma try_finally_release:
  assumes body: "steps quiet body" and locked: "mutex_locked s"
  shows "try_finally body mutex_release s = ((fst (body s))\<lparr>mutex_locked := False\<rparr>, snd (body s))"
proof -
  obtain s1 r where b: "body s = (s1, r)" by (cases "body s")
  have "quiet s s1" and nb: "r \<noteq> Block"
    using stepsD[OF body, of s] b by simp_all
  then have l1: "mutex_locked s1" using locked by (simp add: quiet_def)
  show ?thesis using b nb l1
    by (cases r) (simp_all add: try_finally_def mutex_release_def)
qed

lemma try_finally_clear_release:
  assumes body: "steps quiet body" and locked: "mutex_locked s"
  shows "try_finally body
           (pbind (modify (\<lambda>s. s\<lparr>last_stamp_is_ready := False\<rparr>)) (\<lambda>_. mutex_release)) s
         = ((fst (body s))\<lparr>last_stamp_is_ready := False, mutex_locked := False\<rparr>, snd (body s))"
proof -
  obtain s1 r where b: "body s = (s1, r)" by (cases "body s")
  have "quiet s s1" and nb: "r \<noteq> Block"
    using stepsD[OF body, of s] b by simp_all
  then have l1: "mutex_locked s1" using locked by (simp add: quiet_def)
  show ?thesis using b nb l1
    by (cases r) (simp_all add: try_finally_def mutex_release_def pbind_def modify_def)
qed

lemma pbind_acquire:
  "\<not> mutex_locked s \<Longrightarrow> pbind mutex_acquire f s = f () (s\<lparr>mutex_locked := True\<rparr>)"
  by (simp add: pbind_def mutex_acquire_def)

lemma estimation_result:
  assumes "\<not> mutex_locked s"
  shows "estimation E s =
     ((fst (estimation_try E (s\<lparr>mutex_locked := True\<rparr>)))
         \<lparr>last_stamp_is_ready := False, mutex_locked := False\<rparr>,
      snd (estimation_try E (s\<lparr>mutex_locked := True\<rparr>)))"
  using assms
  by (simp add: estimation_def pbind_acquire try_finally_clear_release[OF quiet_estimation_try])

lemma get_joint_state_result:
  assumes "\<not> mutex_locked s"
  shows "get_joint_state E js s =
     ((fst (get_joint_state_try E js (s\<lparr>mutex_locked := True\<rparr>)))\<lparr>mutex_locked := False\<rparr>,
      snd (get_joint_state_try E js (s\<lparr>mutex_locked := True\<rparr>)))"
  using assms
  by (simp add: get_joint_state_def pbind_acquire try_finally_release[OF quiet_get_joint_state_try])

lemma get_base_pose_estimation_result:
  assumes "\<not> mutex_locked s" and "\<not> header_stamp m < current_stamp s"
  shows "get_base_pose_estimation E m s =
     ((fst (get_base_pose_estimation_try E m (s\<lparr>mutex_locked := True\<rparr>)))\<lparr>mutex_locked := False\<rparr>,
      snd (get_base_pose_estimation_try E m (s\<lparr>mutex_locked := True\<rparr>)))"
  using assms
  by (simp add: get_base_pose_estimation_def Let_def pbind_def gets_def
        pbind_acquire[unfolded pbind_def]
        try_finally_release[OF quiet_get_base_pose_estimation_try])

lemma quiet_get_visual_tag_rest:
  "steps quiet (pbind (get_transformation_constraint E f c tf p w) (\<lambda>names.
      pbind (gets current_stamp) (\<lambda>cur.
      pbind (if cur < stamp then modify (rollover stamp) else ret ()) (\<lambda>_.
      modify (extend_current names)))))"
  by (intro steps_quiet quiet_get_transformation_constraint steps_modify;
      simp add: quiet_def rollover_def extend_current_def)

lemma get_visual_tag_try_result:
  assumes "\<not> mutex_locked s"
  shows "try_finally (get_visual_tag_try E m w) mutex_release s =
     (let b = pbind (get_transformation_constraint E (header_frame_id m) (child_frame_id m)
                       (transform m) [] w) (\<lambda>names.
               pbind (gets current_stamp) (\<lambda>cur.
               pbind (if cur < header_stamp m then modify (rollover (header_stamp m)) else ret ()) (\<lambda>_.
               modify (extend_current names)))) (s\<lparr>mutex_locked := True\<rparr>)
      in ((fst b)\<lparr>mutex_locked := False\<rparr>, snd b))"
proof -
  have "try_finally (get_visual_tag_try E m w) mutex_release s =
        try_finally (pbind (get_transformation_constraint E (header_frame_id m) (child_frame_id m)
                       (transform m) [] w) (\<lambda>names.
               pbind (gets current_stamp) (\<lambda>cur.
               pbind (if cur < header_stamp m then modify (rollover (header_stamp m)) else ret ()) (\<lambda>_.
               modify (extend_current names))))) mutex_release (s\<lparr>mutex_locked := True\<rparr>)"
    using assms by (simp add: get_visual_tag_try_def Let_def try_finally_def pbind_acquire)
  then show ?thesis
    by (simp add: try_finally_release[OF quiet_get_visual_tag_rest] Let_def)
qed

lemma get_visual_tag_unlocked:
  assumes "\<not> mutex_locked s"
  shows "\<not> mutex_locked (fst (get_visual_tag E m s)) \<and> snd (get_visual_tag E m s) \<noteq> Block"
proof -
  let ?c = "QuaternionTransform [rotation_x (transform m), rotation_y (transform m),
                rotation_z (transform m), rotation_w (transform m)] [0, 0, 1]"
  let ?s1 = "s\<lparr>model_config := server_config E ?c (model_config s), trace := trace s @ [?c]\<rparr>"
  have u: "\<not> mutex_locked ?s1" using assms by simp
  have nb: "\<And>w. snd (try_finally (get_visual_tag_try E m w) mutex_release ?s1) \<noteq> Block"
    unfolding get_visual_tag_try_result[OF u] Let_def
    using stepsD(2)[OF quiet_get_visual_tag_rest] by simp
  have ul: "\<And>w. \<not> mutex_locked (fst (try_finally (get_visual_tag_try E m w) mutex_release ?s1))"
    unfolding get_visual_tag_try_result[OF u] Let_def by simp
  show ?thesis
    using assms nb ul
    by (simp add: get_visual_tag_def Let_def pbind_def gets_def ret_def raise_def ext_def index_def
          split: option.splits outcome.splits prod.splits)
qed

subsection \<open>The mutex is released on every path\<close>

text \<open>
  C10. Each of the four operations that acquire the mutex (\<^verbatim>\<open>estimation\<close>,
  \<^verbatim>\<open>get_joint_state\<close>, \<^verbatim>\<open>get_visual_tag\<close>, \<^verbatim>\<open>get_base_pose_estimation\<close>), entered
  with the mutex free, ends with the mutex free: whatever the environment answers,
  whether the operation returns or an exception leaves it (an \<^verbatim>\<open>AssertionError\<close> of
  \<^verbatim>\<open>get_joint_state\<close> included), and it never stays blocked.
\<close>

theorem callbacks_release_mutex:
  assumes "\<not> mutex_locked s"
  shows "(\<not> mutex_locked (fst (estimation E s)) \<and> snd (estimation E s) \<noteq> Block)
       \<and> (\<not> mutex_locked (fst (get_joint_state E js s)) \<and> snd (get_joint_state E js s) \<noteq> Block)
       \<and> (\<not> mutex_locked (fst (get_visual_tag E m s)) \<and> snd (get_visual_tag E m s) \<noteq> Block)
       \<and> (\<not> mutex_locked (fst (get_base_pose_estimation E m s))
          \<and> snd (get_base_pose_estimation E m s) \<noteq> Block)"
proof -
  have 1: "\<not> mutex_locked (fst (estimation E s)) \<and> snd (estimation E s) \<noteq> Block"
    using stepsD(2)[OF quiet_estimation_try] by (simp add: estimation_result[OF assms])
  have 2: "\<not> mutex_locked (fst (get_joint_state E js s)) \<and> snd (get_joint_state E js s) \<noteq> Block"
    using stepsD(2)[OF quiet_get_joint_state_try] by (simp add: get_joint_state_result[OF assms])
  have 4: "\<not> mutex_locked (fst (get_base_pose_estimation E m s))
          \<and> snd (get_base_pose_estimation E m s) \<noteq> Block"
  proof (cases "header_stamp m < current_stamp s")
    case True
    then show ?thesis using assms
      by (simp add: get_base_pose_estimation_def Let_def pbind_def gets_def ret_def)
  next
    case False
    then show ?thesis
      using stepsD(2)[OF quiet_get_base_pose_estimation_try]
      by (simp add: get_base_pose_estimation_result[OF assms False])
  qed
  show ?thesis using 1 2 4 get_visual_tag_unlocked[OF assms] by blast
qed

lemmas prog_defs = pbind_def ret_def raise_def gets_def modify_def ext_def rospy_log_def
  try_except_def try_finally_def mutex_acquire_def mutex_release_def index_def Let_def

lemmas example_defs = node0_def node_ready_def init_def continuous_estimation_def env_ok_def
  env_wrong_size_def env_no_config_def one_joint_def tag_at_def tf0_def startswith_def
  base_pose_at_def node_no_tags_def env_lost_def node_cached_def env_no_projection_def
  env_no_optimum_def

theorem callbacks_release_mutex_witness:
  "\<not> mutex_locked node0
   \<and> \<not> mutex_locked (fst (get_joint_state env_wrong_size (one_joint 0.5) node0))
   \<and> snd (get_joint_state env_wrong_size (one_joint 0.5) node0)
       = Raise (AssertionError ''r/j is not of size 1'')"
proof -
  have f: "\<not> mutex_locked node0"
    by (simp add: example_defs prog_defs)
  have r: "snd (get_joint_state env_wrong_size (one_joint 0.5) node0)
       = Raise (AssertionError ''r/j is not of size 1'')"
    by (simp add: example_defs prog_defs get_joint_state_def get_joint_state_try_def
         joint_state_body_def)
  show ?thesis
    using f r callbacks_release_mutex[OF f, of env_wrong_size "one_joint 0.5" "tag_at 0"]
    by simp
qed

subsection \<open>A sealed frame is consumed once\<close>

lemma spin_idle:
  assumes "\<not> last_stamp_is_ready s"
  shows "\<exists>k\<le>length Es. fst (spin Es s) =
      s\<lparr>trace := trace s @ concat (replicate k
         [Log DEBUG ''run continuous estimation.run_continuous_estimation={0}, last_stamp_is_ready={1}'',
          RateSleep])\<rparr>"
  using assms
proof (induction Es arbitrary: s)
  case Nil
  then show ?case by (simp add: ret_def)
next
  case (Cons E Es)
  let ?l = "[Log DEBUG ''run continuous estimation.run_continuous_estimation={0}, last_stamp_is_ready={1}'',
          RateSleep]"
  let ?s1 = "s\<lparr>trace := trace s @ ?l\<rparr>"
  have b: "spin_body E s = (?s1, case raises E RateSleep of None \<Rightarrow> Return () | Some e \<Rightarrow> Raise e)"
    using Cons.prems by (simp add: spin_body_def prog_defs)
  show ?case
  proof (cases "raises E RateSleep")
    case None
    have "\<not> last_stamp_is_ready ?s1" using Cons.prems by simp
    from Cons.IH[OF this] obtain k where k: "k \<le> length Es"
      and e: "fst (spin Es ?s1) = ?s1\<lparr>trace := trace ?s1 @ concat (replicate k ?l)\<rparr>" by blast
    have "fst (spin (E # Es) s) = s\<lparr>trace := trace s @ concat (replicate (Suc k) ?l)\<rparr>"
      using b None e by (simp add: pbind_def)
    then show ?thesis using k by (intro exI[of _ "Suc k"]) simp
  next
    case (Some e)
    have "fst (spin (E # Es) s) = s\<lparr>trace := trace s @ concat (replicate (Suc 0) ?l)\<rparr>"
      using b Some by (simp add: pbind_def)
    then show ?thesis by (intro exI[of _ "Suc 0"]) simp
  qed
qed

text \<open>
  C2. A cycle of \<^verbatim>\<open>estimation\<close> entered with the mutex free ends, whatever the
  environment answers (failed projection, failed optimisation, invalid configuration,
  any exception), with \<^verbatim>\<open>last_stamp_is_ready\<close> cleared. From the state it leaves, the
  loop of \<^verbatim>\<open>spin\<close> runs no estimation, however many turns it takes: each turn only
  logs at debug level and sleeps, and no attribute of the object changes.
\<close>

theorem estimation_clears_ready:
  assumes "\<not> mutex_locked s"
  shows "\<not> last_stamp_is_ready (fst (estimation E s)) \<and> snd (estimation E s) \<noteq> Block
     \<and> (\<exists>k\<le>length Es. fst (spin Es (fst (estimation E s))) =
          (fst (estimation E s))\<lparr>trace := trace (fst (estimation E s)) @ concat (replicate k
             [Log DEBUG ''run continuous estimation.run_continuous_estimation={0}, last_stamp_is_ready={1}'',
              RateSleep])\<rparr>)"
proof -
  have 1: "\<not> last_stamp_is_ready (fst (estimation E s))"
    by (simp add: estimation_result[OF assms])
  have 2: "snd (estimation E s) \<noteq> Block"
    using stepsD(2)[OF quiet_estimation_try] by (simp add: estimation_result[OF assms])
  show ?thesis using 1 2 spin_idle[OF 1] by blast
qed

theorem estimation_clears_ready_witness:
  "\<not> mutex_locked node_ready \<and> last_stamp_is_ready node_ready
   \<and> \<not> last_stamp_is_ready (fst (estimation env_no_config node_ready))
   \<and> \<not> last_stamp_is_ready (fst (estimation env_ok node_ready))"
proof -
  have f: "\<not> mutex_locked node_ready" and r: "last_stamp_is_ready node_ready"
    by (simp_all add: example_defs prog_defs)
  show ?thesis
    using f r estimation_clears_ready[OF f, of env_no_config "[]"]
      estimation_clears_ready[OF f, of env_ok "[]"]
    by simp
qed

subsection \<open>The constraint builder\<close>

lemma ext_ok:
  "raises E c = None \<Longrightarrow>
   ext E c v s = (s\<lparr>model_config := server_config E c (model_config s), trace := trace s @ [c]\<rparr>, Return v)"
  by (simp add: ext_def)

lemma builder_names:
  assumes "snd (get_transformation_constraint E j1 j2 tf p w s) = Return names"
  shows "names =
     (let j1' = (if CHR ''/'' \<in> set j1 then j1 else robot_name s @ ''/'' @ j1);
          j2' = (if CHR ''/'' \<in> set j2 then j2 else robot_name s @ ''/'' @ j2);
          nm = p @ j1' @ ''_'' @ j2'
      in if w = 1 then [''T_'' @ nm] else [''P_'' @ nm, ''sO_'' @ nm])"
proof -
  define j1' where "j1' = (if CHR ''/'' \<in> set j1 then j1 else robot_name s @ ''/'' @ j1)"
  define j2' where "j2' = (if CHR ''/'' \<in> set j2 then j2 else robot_name s @ ''/'' @ j2)"
  show ?thesis
  proof (cases "w = 1")
    case True
    show ?thesis using assms True
      unfolding get_transformation_constraint_def Let_def j1'_def[symmetric] j2'_def[symmetric]
      by (simp add: pbind_def gets_def ret_def ext_def j1'_def[symmetric] j2'_def[symmetric]
            split: option.splits) blast?
  next
    case False
    show ?thesis using assms False
      unfolding get_transformation_constraint_def Let_def j1'_def[symmetric] j2'_def[symmetric]
      by (simp add: pbind_def gets_def ret_def ext_def j1'_def[symmetric] j2'_def[symmetric]
            split: option.splits) blast?
  qed
qed


lemma builder_ok:
  assumes "\<forall>c. raises E c = None"
  shows "get_transformation_constraint E j1 j2 tf p w s =
     (let j1' = (if CHR ''/'' \<in> set j1 then j1 else robot_name s @ ''/'' @ j1);
          j2' = (if CHR ''/'' \<in> set j2 then j2 else robot_name s @ ''/'' @ j2);
          nm = p @ j1' @ ''_'' @ j2';
          T = [translation_x tf, translation_y tf, translation_z tf,
               rotation_x tf, rotation_y tf, rotation_z tf, rotation_w tf]
      in if w = 1
         then (s\<lparr>trace := trace s @
                 [Hpp, CreateTransformationConstraint (''T_'' @ nm) j1' j2' T (replicate 6 True)]\<rparr>,
               Return [''T_'' @ nm])
         else (s\<lparr>trace := trace s @
                 [Hpp,
                  CreatePositionConstraint (''P_'' @ nm) j1' j2' (take 3 T) [0, 0, 0]
                    (replicate 3 True),
                  QuaternionInvToTuple (drop 3 T),
                  CreateOrientationConstraint (''O_'' @ nm) j1' j2'
                    (Quaternion_inv_toTuple E (drop 3 T)) (replicate 3 True),
                  ScCreateScalarMultiply (''sO_'' @ nm) w (''O_'' @ nm)]\<rparr>,
               Return [''P_'' @ nm, ''sO_'' @ nm]))"
proof -
  define j1' where "j1' = (if CHR ''/'' \<in> set j1 then j1 else robot_name s @ ''/'' @ j1)"
  define j2' where "j2' = (if CHR ''/'' \<in> set j2 then j2 else robot_name s @ ''/'' @ j2)"
  have ok: "\<And>c. raises E c = None" using assms by simp
  show ?thesis
    unfolding get_transformation_constraint_def Let_def j1'_def[symmetric] j2'_def[symmetric]
    by (simp add: pbind_def gets_def ret_def ext_def ok j1'_def[symmetric] j2'_def[symmetric])
qed

text \<open>
  C7. When \<^verbatim>\<open>_get_transformation_constraint\<close> returns, it returns one name if the
  orientation weight equals 1 and two names otherwise, for every transform and every
  weight. When no external call raises it does return: with weight 1 it has created one
  transformation constraint \<^verbatim>\<open>T_<name>\<close> with the mask of six \<^verbatim>\<open>True\<close> and returns its
  name; otherwise it has created the position constraint \<^verbatim>\<open>P_<name>\<close> with the mask of
  three \<^verbatim>\<open>True\<close>, the orientation constraint \<^verbatim>\<open>O_<name>\<close> and its multiple by the weight
  \<^verbatim>\<open>sO_<name>\<close>, and returns \<^verbatim>\<open>P_<name>\<close> and \<^verbatim>\<open>sO_<name>\<close>.
\<close>

theorem transformation_constraint_names:
  "(snd (get_transformation_constraint E j1 j2 tf p w s) = Return names \<longrightarrow>
      length names = (if w = 1 then 1 else 2))
   \<and> ((\<forall>c. raises E c = None) \<longrightarrow>
        (let j1' = (if CHR ''/'' \<in> set j1 then j1 else robot_name s @ ''/'' @ j1);
             j2' = (if CHR ''/'' \<in> set j2 then j2 else robot_name s @ ''/'' @ j2);
             nm = p @ j1' @ ''_'' @ j2';
             T = [translation_x tf, translation_y tf, translation_z tf,
                  rotation_x tf, rotation_y tf, rotation_z tf, rotation_w tf]
         in get_transformation_constraint E j1 j2 tf p w s =
            (if w = 1
             then (s\<lparr>trace := trace s @
                     [Hpp, CreateTransformationConstraint (''T_'' @ nm) j1' j2' T (replicate 6 True)]\<rparr>,
                   Return [''T_'' @ nm])
             else (s\<lparr>trace := trace s @
                     [Hpp,
                      CreatePositionConstraint (''P_'' @ nm) j1' j2' (take 3 T) [0, 0, 0]
                        (replicate 3 True),
                      QuaternionInvToTuple (drop 3 T),
                      CreateOrientationConstraint (''O_'' @ nm) j1' j2'
                        (Quaternion_inv_toTuple E (drop 3 T)) (replicate 3 True),
                      ScCreateScalarMultiply (''sO_'' @ nm) w (''O_'' @ nm)]\<rparr>,
                   Return [''P_'' @ nm, ''sO_'' @ nm]))))"
proof (intro conjI impI)
  assume "snd (get_transformation_constraint E j1 j2 tf p w s) = Return names"
  from builder_names[OF this] show "length names = (if w = 1 then 1 else 2)"
    by (simp add: Let_def)
next
  assume "\<forall>c. raises E c = None"
  from builder_ok[OF this, of j1 j2 tf p w s]
  show "let j1' = (if CHR ''/'' \<in> set j1 then j1 else robot_name s @ ''/'' @ j1);
             j2' = (if CHR ''/'' \<in> set j2 then j2 else robot_name s @ ''/'' @ j2);
             nm = p @ j1' @ ''_'' @ j2';
             T = [translation_x tf, translation_y tf, translation_z tf,
                  rotation_x tf, rotation_y tf, rotation_z tf, rotation_w tf]
         in get_transformation_constraint E j1 j2 tf p w s =
            (if w = 1
             then (s\<lparr>trace := trace s @
                     [Hpp, CreateTransformationConstraint (''T_'' @ nm) j1' j2' T (replicate 6 True)]\<rparr>,
                   Return [''T_'' @ nm])
             else (s\<lparr>trace := trace s @
                     [Hpp,
                      CreatePositionConstraint (''P_'' @ nm) j1' j2' (take 3 T) [0, 0, 0]
                        (replicate 3 True),
                      QuaternionInvToTuple (drop 3 T),
                      CreateOrientationConstraint (''O_'' @ nm) j1' j2'
                        (Quaternion_inv_toTuple E (drop 3 T)) (replicate 3 True),
                      ScCreateScalarMultiply (''sO_'' @ nm) w (''O_'' @ nm)]\<rparr>,
                   Return [''P_'' @ nm, ''sO_'' @ nm]))"
    unfolding Let_def by (simp only: if_distrib[of "\<lambda>x. _ = x"] split: if_splits) 
qed

theorem transformation_constraint_names_witness:
  "(\<forall>c. raises env_ok c = None)
   \<and> get_transformation_constraint env_ok ''camera'' ''tag'' tf0 [] 1 node0 =
       (node0\<lparr>trace := trace node0 @
          [Hpp, CreateTransformationConstraint ''T_r/camera_r/tag'' ''r/camera'' ''r/tag''
                  [0, 0, 1, 0, 0, 0, 1] [True, True, True, True, True, True]]\<rparr>,
        Return [''T_r/camera_r/tag''])
   \<and> snd (get_transformation_constraint env_ok ''camera'' ''tag'' tf0 [] 0.5 node0) =
        Return [''P_r/camera_r/tag'', ''sO_r/camera_r/tag'']
   \<and> length [''P_r/camera_r/tag'', ''sO_r/camera_r/tag''] = 2"
proof -
  have ok: "\<forall>c. raises env_ok c = None" by (simp add: env_ok_def)
  have rn: "robot_name node0 = ''r''" by (simp add: example_defs prog_defs)
  have n2: "(numeral (num.Bit0 (num.Bit1 num.One)) :: nat) = Suc (Suc (Suc (Suc (Suc (Suc 0)))))"
    by simp
  show ?thesis
    using ok rn
      transformation_constraint_names[of env_ok "''camera''" "''tag''" tf0 "[]" 1 node0 "[]"]
      transformation_constraint_names[of env_ok "''camera''" "''tag''" tf0 "[]" "0.5" node0
        "[''P_r/camera_r/tag'', ''sO_r/camera_r/tag'']"]
    by (simp add: Let_def tf0_def n2)
qed

subsection \<open>Frames roll over in the order of their stamps\<close>

lemma preorder_outside: "preorder_on_states outside"
  unfolding preorder_on_states_def outside_def
proof (intro conjI allI impI)
  fix s :: Estimation
  have "s = s\<lparr>model_config := model_config s, trace := trace s @ []\<rparr>" by simp
  then show "\<exists>cfg ev. s = s\<lparr>model_config := cfg, trace := trace s @ ev\<rparr>" by blast
next
  fix a b c :: Estimation
  assume "\<exists>cfg ev. b = a\<lparr>model_config := cfg, trace := trace a @ ev\<rparr>"
    and "\<exists>cfg ev. c = b\<lparr>model_config := cfg, trace := trace b @ ev\<rparr>"
  then obtain c1 e1 c2 e2 where b: "b = a\<lparr>model_config := c1, trace := trace a @ e1\<rparr>"
    and c: "c = b\<lparr>model_config := c2, trace := trace b @ e2\<rparr>" by blast
  have "c = a\<lparr>model_config := c2, trace := trace a @ (e1 @ e2)\<rparr>"
    using b c by simp
  then show "\<exists>cfg ev. c = a\<lparr>model_config := cfg, trace := trace a @ ev\<rparr>" by blast
qed

lemma outside_ext: "steps outside (ext E c v)"
proof (rule steps_ext)
  fix s :: Estimation
  show "outside s (s\<lparr>model_config := server_config E c (model_config s), trace := trace s @ [c]\<rparr>)"
    unfolding outside_def by blast
qed

lemma outside_get_transformation_constraint:
  "steps outside (get_transformation_constraint E j1 j2 tf p w)"
  unfolding get_transformation_constraint_def Let_def
  by (intro steps_pbind[OF preorder_outside] steps_gets[OF preorder_outside]
        steps_ret[OF preorder_outside] steps_if outside_ext)

lemma get_visual_tag_locked_frames:
  fixes s1 :: Estimation and E m w
  defines "s' \<equiv> fst (try_finally (get_visual_tag_try E m w) mutex_release s1)"
  shows "(current_stamp s' = current_stamp s1 \<and> last_stamp s' = last_stamp s1)
       \<or> (current_stamp s1 < current_stamp s' \<and> last_stamp s' = current_stamp s1)"
proof (cases "mutex_locked s1")
  case True
  then have "try_finally (get_visual_tag_try E m w) mutex_release s1 = (s1, Block)"
    by (simp add: get_visual_tag_try_def Let_def try_finally_def pbind_def mutex_acquire_def)
  then show ?thesis by (simp add: s'_def)
next
  case False
  let ?s0 = "s1\<lparr>mutex_locked := True\<rparr>"
  let ?g = "get_transformation_constraint E (header_frame_id m) (child_frame_id m) (transform m) [] w"
  obtain s2 r where g: "?g ?s0 = (s2, r)" by (cases "?g ?s0")
  have "outside ?s0 s2"
    using stepsD(1)[OF outside_get_transformation_constraint, of ?s0 E "header_frame_id m"
        "child_frame_id m" "transform m" "[]" w] g by simp
  then obtain cfg ev where s2: "s2 = ?s0\<lparr>model_config := cfg, trace := trace ?s0 @ ev\<rparr>"
    unfolding outside_def by blast
  show ?thesis
    unfolding s'_def get_visual_tag_try_result[OF False] Let_def
    using g s2
    by (cases r) (simp_all add: pbind_def gets_def modify_def ret_def rollover_def extend_current_def)
qed

lemma get_visual_tag_frames:
  fixes s :: Estimation and E m
  defines "s' \<equiv> fst (get_visual_tag E m s)"
  shows "(current_stamp s' = current_stamp s \<and> last_stamp s' = last_stamp s)
       \<or> (current_stamp s < current_stamp s' \<and> last_stamp s' = current_stamp s)"
proof -
  let ?c = "QuaternionTransform [rotation_x (transform m), rotation_y (transform m),
                rotation_z (transform m), rotation_w (transform m)] [0, 0, 1]"
  let ?s1 = "s\<lparr>model_config := server_config E ?c (model_config s), trace := trace s @ [?c]\<rparr>"
  have L: "\<And>w. (current_stamp (fst (try_finally (get_visual_tag_try E m w) mutex_release ?s1))
                  = current_stamp s
             \<and> last_stamp (fst (try_finally (get_visual_tag_try E m w) mutex_release ?s1))
                  = last_stamp s)
          \<or> (current_stamp s
                < current_stamp (fst (try_finally (get_visual_tag_try E m w) mutex_release ?s1))
             \<and> last_stamp (fst (try_finally (get_visual_tag_try E m w) mutex_release ?s1))
                  = current_stamp s)"
    using get_visual_tag_locked_frames[of E m _ ?s1] by simp
  show ?thesis
    unfolding s'_def using L
    by (simp add: get_visual_tag_def Let_def pbind_def gets_def ret_def raise_def ext_def index_def
          split: option.splits)
qed

lemma get_visual_tag_stale:
  "header_stamp m < current_stamp s \<Longrightarrow> get_visual_tag E m s = (s, Return ())"
  by (simp add: get_visual_tag_def Let_def pbind_def gets_def ret_def)

lemma sealed_stamps_lower:
  "\<forall>t \<in> set (sealed_stamps ds s). current_stamp s \<le> t"
proof (induction ds arbitrary: s)
  case Nil
  then show ?case by simp
next
  case (Cons d ds)
  let ?s' = "fst (get_visual_tag (fst d) (snd d) s)"
  have f: "(current_stamp ?s' = current_stamp s \<and> last_stamp ?s' = last_stamp s)
       \<or> (current_stamp s < current_stamp ?s' \<and> last_stamp ?s' = current_stamp s)"
    by (rule get_visual_tag_frames)
  have ih: "\<forall>t \<in> set (sealed_stamps ds ?s'). current_stamp ?s' \<le> t" by (rule Cons.IH)
  show ?case using f ih by (auto simp: Let_def)
qed

lemma sealed_stamps_sorted: "sorted (sealed_stamps ds s)"
proof (induction ds arbitrary: s)
  case Nil
  then show ?case by simp
next
  case (Cons d ds)
  let ?s' = "fst (get_visual_tag (fst d) (snd d) s)"
  have f: "(current_stamp ?s' = current_stamp s \<and> last_stamp ?s' = last_stamp s)
       \<or> (current_stamp s < current_stamp ?s' \<and> last_stamp ?s' = current_stamp s)"
    by (rule get_visual_tag_frames)
  have lo: "\<forall>t \<in> set (sealed_stamps ds ?s'). current_stamp ?s' \<le> t"
    by (rule sealed_stamps_lower)
  have ih: "sorted (sealed_stamps ds ?s')" by (rule Cons.IH)
  show ?case using f lo ih by (auto simp: Let_def)
qed

text \<open>
  C1. Over every sequence of detections handled by \<^verbatim>\<open>get_visual_tag\<close>, from every
  state and whatever the environment answers, the stamps of the frames sealed
  (the values \<^verbatim>\<open>last_stamp\<close> takes when a frame is made ready) are in non-decreasing
  order; and a detection whose stamp is below the stamp of the open frame is dropped:
  the callback returns and the state is the one it found, so that no frame gets a
  constraint and no call is made.
\<close>

theorem frame_rollover_monotonic:
  "sorted (sealed_stamps ds s)
   \<and> (header_stamp m < current_stamp s \<longrightarrow> get_visual_tag E m s = (s, Return ()))"
  using sealed_stamps_sorted get_visual_tag_stale by blast

theorem frame_rollover_monotonic_witness:
  "header_stamp (tag_at 5) < current_stamp node0
   \<and> get_visual_tag env_ok (tag_at 5) node0 = (node0, Return ())
   \<and> sorted (sealed_stamps [(env_ok, tag_at 20), (env_ok, tag_at 20), (env_ok, tag_at 30)] node0)
   \<and> sealed_stamps [(env_ok, tag_at 20), (env_ok, tag_at 20), (env_ok, tag_at 30)] node0 = [10, 20]"
proof -
  have st: "header_stamp (tag_at 5) < current_stamp node0"
    by (simp add: example_defs prog_defs)
  have ev: "sealed_stamps [(env_ok, tag_at 20), (env_ok, tag_at 20), (env_ok, tag_at 30)] node0
            = [10, 20]"
    by (simp add: get_visual_tag_def get_visual_tag_try_def get_transformation_constraint_def
         rollover_def extend_current_def example_defs prog_defs)
  show ?thesis
    using st ev
      frame_rollover_monotonic[of "[(env_ok, tag_at 20), (env_ok, tag_at 20), (env_ok, tag_at 30)]"
        node0 "tag_at 5" env_ok]
    by simp
qed

subsection \<open>A base pose estimation when visual tags are disabled\<close>

lemma base_pose_try_ok:
  assumes ok: "\<forall>c. raises E c = None"
  shows "get_base_pose_estimation_try E m s =
     (let nm = ''T_base/'' @ robot_name s @ ''/universe_'' @ getRobotName E @ ''/root_joint'';
          cur = current_visual_tag_constraints s;
          cur' = (if nm \<in> set cur then cur else cur @ [nm]);
          tf = transform m;
          calls = [Hpp, GetRobotName, Hpp,
                   CreateTransformationConstraint nm (robot_name s @ ''/universe'')
                     (getRobotName E @ ''/root_joint'')
                     [translation_x tf, translation_y tf, translation_z tf,
                      rotation_x tf, rotation_y tf, rotation_z tf, rotation_w tf]
                     (replicate 6 True)]
      in if visual_tags_enabled s
         then (s\<lparr>current_visual_tag_constraints := cur', trace := trace s @ calls\<rparr>, Return ())
         else (s\<lparr>last_stamp_is_ready := True, last_stamp := current_stamp s,
                 last_visual_tag_constraints := cur',
                 current_stamp := header_stamp m, current_visual_tag_constraints := [],
                 trace := trace s @ calls\<rparr>, Return ()))"
proof -
  have ok': "\<And>c. raises E c = None" using ok by simp
  show ?thesis
    unfolding get_base_pose_estimation_try_def get_transformation_constraint_def
    by (simp add: prog_defs ok' rollover_def extend_current_def)
qed

text \<open>
  C6, as the code has it. With \<^verbatim>\<open>visual_tags_enabled\<close> false, one base pose estimation
  that is not older than the open frame, handled with the mutex free and no external
  call raising, seals the open frame at once, without waiting for another detection:
  the ready flag is set, the last frame gets the stamp the open frame had before the
  call (not the stamp \<open>t\<close> of the message) and the constraints of the open frame with
  the name of the base constraint added unless it was there, and a new empty open frame
  starts at \<open>t\<close>.
\<close>

theorem base_pose_seals_open_frame:
  assumes "\<not> visual_tags_enabled s" and "\<not> mutex_locked s"
    and "\<not> header_stamp m < current_stamp s" and "\<forall>c. raises E c = None"
  shows "let nm = ''T_base/'' @ robot_name s @ ''/universe_'' @ getRobotName E @ ''/root_joint'';
             cur = current_visual_tag_constraints s;
             r = get_base_pose_estimation E m s
         in snd r = Return ()
            \<and> last_stamp_is_ready (fst r)
            \<and> last_stamp (fst r) = current_stamp s
            \<and> last_visual_tag_constraints (fst r) = (if nm \<in> set cur then cur else cur @ [nm])
            \<and> current_stamp (fst r) = header_stamp m
            \<and> current_visual_tag_constraints (fst r) = []
            \<and> \<not> mutex_locked (fst r)"
proof -
  have v: "\<not> visual_tags_enabled (s\<lparr>mutex_locked := True\<rparr>)" using assms(1) by simp
  show ?thesis
    using v
    by (simp add: get_base_pose_estimation_result[OF assms(2,3)] base_pose_try_ok[OF assms(4)]
          Let_def)
qed

theorem base_pose_seals_open_frame_witness:
  "\<not> visual_tags_enabled node_no_tags \<and> \<not> mutex_locked node_no_tags
   \<and> \<not> header_stamp (base_pose_at 20) < current_stamp node_no_tags
   \<and> (\<forall>c. raises env_ok c = None)
   \<and> last_stamp_is_ready (fst (get_base_pose_estimation env_ok (base_pose_at 20) node_no_tags))
   \<and> last_stamp (fst (get_base_pose_estimation env_ok (base_pose_at 20) node_no_tags)) = 10
   \<and> last_visual_tag_constraints (fst (get_base_pose_estimation env_ok (base_pose_at 20) node_no_tags))
       = [''T_base/r/universe_r/root_joint'']
   \<and> current_stamp (fst (get_base_pose_estimation env_ok (base_pose_at 20) node_no_tags)) = 20"
proof -
  have h: "\<not> visual_tags_enabled node_no_tags" "\<not> mutex_locked node_no_tags"
    "\<not> header_stamp (base_pose_at 20) < current_stamp node_no_tags"
    "\<forall>c. raises env_ok c = None"
    by (simp_all add: example_defs prog_defs)
  have v: "robot_name node_no_tags = ''r''" "current_visual_tag_constraints node_no_tags = []"
    "current_stamp node_no_tags = 10" "getRobotName env_ok = ''r''"
    "header_stamp (base_pose_at 20) = 20"
    by (simp_all add: example_defs prog_defs)
  show ?thesis
    using h v base_pose_seals_open_frame[OF h]
    by (simp add: Let_def)
qed

text \<open>
  The stamp of the sealed frame is not the stamp of the message: from the object as
  \<^verbatim>\<open>__init__\<close> leaves it at time 10, a base pose estimation stamped 20 makes ready a
  frame stamped 10.
\<close>

theorem base_pose_frame_stamp_counterexample:
  "\<not> visual_tags_enabled node_no_tags
   \<and> \<not> header_stamp (base_pose_at 20) < current_stamp node_no_tags
   \<and> last_stamp_is_ready (fst (get_base_pose_estimation env_ok (base_pose_at 20) node_no_tags))
   \<and> last_stamp (fst (get_base_pose_estimation env_ok (base_pose_at 20) node_no_tags))
       \<noteq> header_stamp (base_pose_at 20)"
  by (simp add: get_base_pose_estimation_def get_base_pose_estimation_try_def
        get_transformation_constraint_def rollover_def extend_current_def example_defs prog_defs)

subsection \<open>The orientation weight of a tag\<close>

lemma visual_tag_ok:
  assumes free: "\<not> mutex_locked s" and fresh: "\<not> header_stamp m < current_stamp s"
    and ok: "\<forall>c. raises E c = None"
    and v: "Quaternion_transform E [rotation_x (transform m), rotation_y (transform m),
              rotation_z (transform m), rotation_w (transform m)] [0, 0, 1] = v"
    and len: "2 < length v"
  shows "get_visual_tag E m s =
     (let quat = [rotation_x (transform m), rotation_y (transform m),
                  rotation_z (transform m), rotation_w (transform m)];
          w = 0.063 * 4 * (- (v ! 2)) * 1;
          r = get_transformation_constraint E (header_frame_id m) (child_frame_id m)
                (transform m) [] w
                (s\<lparr>trace := trace s @ [QuaternionTransform quat [0, 0, 1]], mutex_locked := True\<rparr>);
          s2 = (if current_stamp s < header_stamp m then rollover (header_stamp m) (fst r)
                else fst r)
      in case snd r of
           Return names \<Rightarrow> ((extend_current names s2)\<lparr>mutex_locked := False\<rparr>, Return ())
         | Raise e \<Rightarrow> ((fst r)\<lparr>mutex_locked := False\<rparr>, Raise e)
         | Block \<Rightarrow> ((fst r)\<lparr>mutex_locked := False\<rparr>, Block))"
proof -
  let ?c = "QuaternionTransform [rotation_x (transform m), rotation_y (transform m),
                rotation_z (transform m), rotation_w (transform m)] [0, 0, 1]"
  let ?s1 = "s\<lparr>trace := trace s @ [?c]\<rparr>"
  let ?w = "0.063 * 4 * (- (v ! 2)) * 1 :: real"
  let ?g = "get_transformation_constraint E (header_frame_id m) (child_frame_id m)
                (transform m) [] ?w"
  have ok': "\<And>c. raises E c = None" using ok by simp
  have u: "\<not> mutex_locked ?s1" using free by simp
  have pre: "get_visual_tag E m s = try_finally (get_visual_tag_try E m ?w) mutex_release ?s1"
    using fresh v len
    by (simp add: get_visual_tag_def Let_def pbind_def gets_def ret_def ext_def index_def ok')
  obtain s2 r where g: "?g (?s1\<lparr>mutex_locked := True\<rparr>) = (s2, r)"
    by (cases "?g (?s1\<lparr>mutex_locked := True\<rparr>)")
  have "outside (?s1\<lparr>mutex_locked := True\<rparr>) s2"
    using stepsD(1)[OF outside_get_transformation_constraint, of "?s1\<lparr>mutex_locked := True\<rparr>" E
        "header_frame_id m" "child_frame_id m" "transform m" "[]" ?w] g by simp
  then have cs: "current_stamp s2 = current_stamp s"
    unfolding outside_def by auto
  show ?thesis
    unfolding pre get_visual_tag_try_result[OF u] Let_def
    using g cs
    by (cases r) (simp_all add: pbind_def gets_def modify_def ret_def)
qed


text \<open>
  C9, as the code has it. For a detection that is not older than the open frame,
  handled with the mutex free and no external call raising, where \<open>v\<close> is the image of
  the z axis under the rotation of the detection, the weight handed to the constraint
  builder is \<open>0.063 * 4 * (- v[2]) * 1\<close> as computed, without clamping: unless it equals
  1 it is the factor of the scalar multiple \<^verbatim>\<open>sO_<name>\<close> created on the server, and it
  is non-negative exactly when \<open>v[2]\<close> is not positive.
\<close>

theorem tag_orientation_weight:
  assumes free: "\<not> mutex_locked s" and fresh: "\<not> header_stamp m < current_stamp s"
    and ok: "\<forall>c. raises E c = None"
    and v: "Quaternion_transform E [rotation_x (transform m), rotation_y (transform m),
              rotation_z (transform m), rotation_w (transform m)] [0, 0, 1] = v"
    and len: "2 < length v"
  shows "let w = 0.063 * 4 * (- (v ! 2)) * 1;
             j1 = (if CHR ''/'' \<in> set (header_frame_id m) then header_frame_id m
                   else robot_name s @ ''/'' @ header_frame_id m);
             j2 = (if CHR ''/'' \<in> set (child_frame_id m) then child_frame_id m
                   else robot_name s @ ''/'' @ child_frame_id m);
             nm = j1 @ ''_'' @ j2
         in (w \<noteq> 1 \<longrightarrow>
               ScCreateScalarMultiply (''sO_'' @ nm) w (''O_'' @ nm)
                 \<in> set (trace (fst (get_visual_tag E m s))))
            \<and> (0 \<le> w \<longleftrightarrow> v ! 2 \<le> 0)"
  by (auto simp: visual_tag_ok[OF free fresh ok v len] builder_ok[OF ok] Let_def
        rollover_def extend_current_def)

theorem tag_orientation_weight_witness:
  "\<not> mutex_locked node0 \<and> \<not> header_stamp (tag_at 20) < current_stamp node0
   \<and> (\<forall>c. raises env_ok c = None)
   \<and> Quaternion_transform env_ok [0, 0, 0, 1] [0, 0, 1] = [0, 0, 1]
   \<and> ScCreateScalarMultiply ''sO_r/camera_r/tag'' (- 0.252) ''O_r/camera_r/tag''
        \<in> set (trace (fst (get_visual_tag env_ok (tag_at 20) node0)))"
proof -
  have h: "\<not> mutex_locked node0" "\<not> header_stamp (tag_at 20) < current_stamp node0"
    "\<forall>c. raises env_ok c = None"
    "Quaternion_transform env_ok [rotation_x (transform (tag_at 20)),
        rotation_y (transform (tag_at 20)), rotation_z (transform (tag_at 20)),
        rotation_w (transform (tag_at 20))] [0, 0, 1] = [0, 0, 1]"
    "2 < length [0 :: real, 0, 1]"
    by (simp_all add: example_defs prog_defs)
  have q: "Quaternion_transform env_ok [0, 0, 0, 1] [0, 0, 1] = [0, 0, 1]"
    by (simp add: example_defs)
  have n: "robot_name node0 = ''r''" "header_frame_id (tag_at 20) = ''camera''"
    "child_frame_id (tag_at 20) = ''tag''"
    by (simp_all add: example_defs prog_defs)
  show ?thesis
    using h(1,2,3) q n tag_orientation_weight[OF h]
    by (simp add: Let_def)
qed

text \<open>
  A negative weight reaches the builder: a detection whose rotation is the identity
  (the z axis of the tag along the z axis of the camera) gives the weight \<open>- 0.252\<close>.
\<close>

theorem tag_orientation_weight_counterexample:
  "ScCreateScalarMultiply ''sO_r/camera_r/tag'' (- 0.252) ''O_r/camera_r/tag''
        \<in> set (trace (fst (get_visual_tag env_ok (tag_at 20) node0)))
   \<and> (- 0.252 :: real) < 0"
  by (simp add: get_visual_tag_def get_visual_tag_try_def
        get_transformation_constraint_def rollover_def extend_current_def example_defs prog_defs)

subsection \<open>Joint values at the bounds\<close>

lemma joint_state_body_ok:
  assumes ok: "\<forall>c. raises E c = None"
    and ty: "\<not> startswith (getJointType E (rn @ jn)) ''JointModelRUB''"
    and sz: "getJointConfigSize E (rn @ jn) = 1"
    and bd: "getJointBounds E (rn @ jn) = [lo, hi]"
  shows "joint_state_body E rn (jn, q) s =
     (s\<lparr>trace := trace s @ [GetJointType (rn @ jn), GetJointConfigSize (rn @ jn),
                              GetJointBounds (rn @ jn)]
         @ (if q - lo < - 0.001 \<or> q - hi > 0.001
            then [LogThrottle WARN 1 ''Current state {1} of joint {0} out of bounds {2}'']
            else [])
         @ [CreateLockedJoint (''lock_'' @ rn @ jn) (rn @ jn) [min hi (max lo q)]]\<rparr>,
      Return ())"
proof -
  have ok': "\<And>c. raises E c = None" using ok by simp
  show ?thesis
    unfolding joint_state_body_def
    by (simp add: prog_defs ok' ty sz bd)
qed

lemma joint_state_one_ok:
  assumes free: "\<not> mutex_locked s" and ok: "\<forall>c. raises E c = None"
    and rn: "rn = (if length (getRobotName E) > 0 then getRobotName E @ ''/'' else getRobotName E)"
    and ty: "\<not> startswith (getJointType E (rn @ jn)) ''JointModelRUB''"
    and sz: "getJointConfigSize E (rn @ jn) = 1"
    and bd: "getJointBounds E (rn @ jn) = [lo, hi]"
  shows "trace (fst (get_joint_state E \<lparr>name = [jn], position = [q]\<rparr> s)) =
     trace s @ [Hpp, GetRobotName, GetJointType (rn @ jn), GetJointConfigSize (rn @ jn),
                GetJointBounds (rn @ jn)]
     @ (if q - lo < - 0.001 \<or> q - hi > 0.001
        then [LogThrottle WARN 1 ''Current state {1} of joint {0} out of bounds {2}''] else [])
     @ [CreateLockedJoint (''lock_'' @ rn @ jn) (rn @ jn) [min hi (max lo q)]]"
proof -
  have ok': "\<And>c. raises E c = None" using ok by simp
  have body: "\<And>s1. joint_state_body E rn (jn, q) s1 =
     (s1\<lparr>trace := trace s1 @ [GetJointType (rn @ jn), GetJointConfigSize (rn @ jn),
                              GetJointBounds (rn @ jn)]
         @ (if q - lo < - 0.001 \<or> q - hi > 0.001
            then [LogThrottle WARN 1 ''Current state {1} of joint {0} out of bounds {2}'']
            else [])
         @ [CreateLockedJoint (''lock_'' @ rn @ jn) (rn @ jn) [min hi (max lo q)]]\<rparr>,
      Return ())"
    by (rule joint_state_body_ok[OF ok ty sz bd])
  show ?thesis
  proof (cases "getRobotName E = []")
    case True
    then have r: "rn = []" using rn by simp
    show ?thesis
      unfolding get_joint_state_result[OF free] get_joint_state_try_def
      using True body[unfolded r]
      by (simp add: try_except_def pbind_def gets_def modify_def ret_def ext_def ok' Let_def r)
  next
    case False
    then have r: "rn = getRobotName E @ ''/''" using rn by simp
    show ?thesis
      unfolding get_joint_state_result[OF free] get_joint_state_try_def
      using False body[unfolded r]
      by (simp add: try_except_def pbind_def gets_def modify_def ret_def ext_def ok' Let_def r)
  qed
qed


text \<open>
  C8, as the code has it. For a joint of configuration size 1 with bounds \<open>[lo, hi]\<close>,
  in a message of one joint handled with the mutex free and no external call raising,
  and for every value \<open>q\<close>: the warning is raised exactly when \<open>q - lo < - 0.001\<close> or
  \<open>q - hi > 0.001\<close>, and the joint is locked at \<open>min hi (max lo q)\<close> in every case (every
  value is clamped into the bounds, the tolerance of 0.001 only decides the warning).
  So, when \<open>lo \<le> hi\<close>, the value \<open>hi + 0.0005\<close> raises no warning and the joint is
  locked at \<open>hi\<close>, and the value \<open>hi + 0.1\<close> raises the warning and the joint is locked
  at \<open>hi\<close>.
\<close>

theorem joint_bound_tolerance:
  assumes free: "\<not> mutex_locked s" and ok: "\<forall>c. raises E c = None"
    and rn: "rn = (if length (getRobotName E) > 0 then getRobotName E @ ''/'' else getRobotName E)"
    and ty: "\<not> startswith (getJointType E (rn @ jn)) ''JointModelRUB''"
    and sz: "getJointConfigSize E (rn @ jn) = 1"
    and bd: "getJointBounds E (rn @ jn) = [lo, hi]"
  shows "(\<forall>q. trace (fst (get_joint_state E \<lparr>name = [jn], position = [q]\<rparr> s)) =
           trace s @ [Hpp, GetRobotName, GetJointType (rn @ jn), GetJointConfigSize (rn @ jn),
                      GetJointBounds (rn @ jn)]
           @ (if q - lo < - 0.001 \<or> q - hi > 0.001
              then [LogThrottle WARN 1 ''Current state {1} of joint {0} out of bounds {2}'']
              else [])
           @ [CreateLockedJoint (''lock_'' @ rn @ jn) (rn @ jn) [min hi (max lo q)]])
       \<and> (lo \<le> hi \<longrightarrow>
            trace (fst (get_joint_state E \<lparr>name = [jn], position = [hi + 0.0005]\<rparr> s)) =
              trace s @ [Hpp, GetRobotName, GetJointType (rn @ jn), GetJointConfigSize (rn @ jn),
                         GetJointBounds (rn @ jn),
                         CreateLockedJoint (''lock_'' @ rn @ jn) (rn @ jn) [hi]]
            \<and> trace (fst (get_joint_state E \<lparr>name = [jn], position = [hi + 0.1]\<rparr> s)) =
              trace s @ [Hpp, GetRobotName, GetJointType (rn @ jn), GetJointConfigSize (rn @ jn),
                         GetJointBounds (rn @ jn),
                         LogThrottle WARN 1 ''Current state {1} of joint {0} out of bounds {2}'',
                         CreateLockedJoint (''lock_'' @ rn @ jn) (rn @ jn) [hi]])"
proof (intro conjI allI impI)
  fix q
  show "trace (fst (get_joint_state E \<lparr>name = [jn], position = [q]\<rparr> s)) =
           trace s @ [Hpp, GetRobotName, GetJointType (rn @ jn), GetJointConfigSize (rn @ jn),
                      GetJointBounds (rn @ jn)]
           @ (if q - lo < - 0.001 \<or> q - hi > 0.001
              then [LogThrottle WARN 1 ''Current state {1} of joint {0} out of bounds {2}'']
              else [])
           @ [CreateLockedJoint (''lock_'' @ rn @ jn) (rn @ jn) [min hi (max lo q)]]"
    by (rule joint_state_one_ok[OF free ok rn ty sz bd])
next
  assume "lo \<le> hi"
  then show "trace (fst (get_joint_state E \<lparr>name = [jn], position = [hi + 0.0005]\<rparr> s)) =
              trace s @ [Hpp, GetRobotName, GetJointType (rn @ jn), GetJointConfigSize (rn @ jn),
                         GetJointBounds (rn @ jn),
                         CreateLockedJoint (''lock_'' @ rn @ jn) (rn @ jn) [hi]]"
    by (simp add: joint_state_one_ok[OF free ok rn ty sz bd])
next
  assume "lo \<le> hi"
  then show "trace (fst (get_joint_state E \<lparr>name = [jn], position = [hi + 0.1]\<rparr> s)) =
              trace s @ [Hpp, GetRobotName, GetJointType (rn @ jn), GetJointConfigSize (rn @ jn),
                         GetJointBounds (rn @ jn),
                         LogThrottle WARN 1 ''Current state {1} of joint {0} out of bounds {2}'',
                         CreateLockedJoint (''lock_'' @ rn @ jn) (rn @ jn) [hi]]"
    by (simp add: joint_state_one_ok[OF free ok rn ty sz bd])
qed

theorem joint_bound_tolerance_witness:
  "\<not> mutex_locked node0 \<and> (\<forall>c. raises env_ok c = None)
   \<and> \<not> startswith (getJointType env_ok ''r/j'') ''JointModelRUB''
   \<and> getJointConfigSize env_ok ''r/j'' = 1 \<and> getJointBounds env_ok ''r/j'' = [0, 1]
   \<and> trace (fst (get_joint_state env_ok \<lparr>name = [''j''], position = [1 + 0.001]\<rparr> node0)) =
        trace node0 @ [Hpp, GetRobotName, GetJointType ''r/j'', GetJointConfigSize ''r/j'',
                       GetJointBounds ''r/j'', CreateLockedJoint ''lock_r/j'' ''r/j'' [1]]
   \<and> trace (fst (get_joint_state env_ok \<lparr>name = [''j''], position = [1 + 0.002]\<rparr> node0)) =
        trace node0 @ [Hpp, GetRobotName, GetJointType ''r/j'', GetJointConfigSize ''r/j'',
                       GetJointBounds ''r/j'',
                       LogThrottle WARN 1 ''Current state {1} of joint {0} out of bounds {2}'',
                       CreateLockedJoint ''lock_r/j'' ''r/j'' [1]]
   \<and> trace (fst (get_joint_state env_ok \<lparr>name = [''j''], position = [- 0.001]\<rparr> node0)) =
        trace node0 @ [Hpp, GetRobotName, GetJointType ''r/j'', GetJointConfigSize ''r/j'',
                       GetJointBounds ''r/j'', CreateLockedJoint ''lock_r/j'' ''r/j'' [0]]
   \<and> trace (fst (get_joint_state env_ok \<lparr>name = [''j''], position = [- 0.002]\<rparr> node0)) =
        trace node0 @ [Hpp, GetRobotName, GetJointType ''r/j'', GetJointConfigSize ''r/j'',
                       GetJointBounds ''r/j'',
                       LogThrottle WARN 1 ''Current state {1} of joint {0} out of bounds {2}'',
                       CreateLockedJoint ''lock_r/j'' ''r/j'' [0]]
   \<and> trace (fst (get_joint_state env_ok \<lparr>name = [''j''], position = [0.5]\<rparr> node0)) =
        trace node0 @ [Hpp, GetRobotName, GetJointType ''r/j'', GetJointConfigSize ''r/j'',
                       GetJointBounds ''r/j'', CreateLockedJoint ''lock_r/j'' ''r/j'' [0.5]]
   \<and> (0 :: real) \<le> 1
   \<and> trace (fst (get_joint_state env_ok \<lparr>name = [''j''], position = [1 + 0.0005]\<rparr> node0)) =
        trace node0 @ [Hpp, GetRobotName, GetJointType ''r/j'', GetJointConfigSize ''r/j'',
                       GetJointBounds ''r/j'', CreateLockedJoint ''lock_r/j'' ''r/j'' [1]]
   \<and> trace (fst (get_joint_state env_ok \<lparr>name = [''j''], position = [1 + 0.1]\<rparr> node0)) =
        trace node0 @ [Hpp, GetRobotName, GetJointType ''r/j'', GetJointConfigSize ''r/j'',
                       GetJointBounds ''r/j'',
                       LogThrottle WARN 1 ''Current state {1} of joint {0} out of bounds {2}'',
                       CreateLockedJoint ''lock_r/j'' ''r/j'' [1]]"
proof -
  have h: "\<not> mutex_locked node0" "\<forall>c. raises env_ok c = None"
    "''r/'' = (if length (getRobotName env_ok) > 0 then getRobotName env_ok @ ''/''
               else getRobotName env_ok)"
    "\<not> startswith (getJointType env_ok (''r/'' @ ''j'')) ''JointModelRUB''"
    "getJointConfigSize env_ok (''r/'' @ ''j'') = 1"
    "getJointBounds env_ok (''r/'' @ ''j'') = [0, 1]"
    by (simp_all add: example_defs prog_defs)
  note t = joint_bound_tolerance[OF h]
  have g: "\<And>q. trace (fst (get_joint_state env_ok \<lparr>name = [''j''], position = [q]\<rparr> node0)) =
           trace node0 @ [Hpp, GetRobotName, GetJointType ''r/j'', GetJointConfigSize ''r/j'',
                      GetJointBounds ''r/j'']
           @ (if q - 0 < - 0.001 \<or> q - 1 > 0.001
              then [LogThrottle WARN 1 ''Current state {1} of joint {0} out of bounds {2}'']
              else [])
           @ [CreateLockedJoint ''lock_r/j'' ''r/j'' [min 1 (max 0 q)]]"
    using t by simp
  show ?thesis
    using h(1,2,4,5,6) t
    by (simp add: g)
qed

text \<open>
  A value within the tolerance is not passed through: with bounds 0 and 1 the value
  1.0005 is locked at 1.
\<close>

theorem joint_within_tolerance_counterexample:
  "CreateLockedJoint ''lock_r/j'' ''r/j'' [1 + 0.0005]
     \<notin> set (trace (fst (get_joint_state env_ok (one_joint (1 + 0.0005)) node0)))
   \<and> CreateLockedJoint ''lock_r/j'' ''r/j'' [1]
     \<in> set (trace (fst (get_joint_state env_ok (one_joint (1 + 0.0005)) node0)))
   \<and> getJointBounds env_ok ''r/j'' = [0, 1]"
  by (simp add: get_joint_state_def get_joint_state_try_def joint_state_body_def
        example_defs prog_defs)

subsection \<open>The state of the manipulation graph\<close>

lemma outside_log: "steps outside (rospy_log c)"
proof (rule steps_log)
  fix s :: Estimation
  have "s\<lparr>trace := trace s @ [c]\<rparr> = s\<lparr>model_config := model_config s, trace := trace s @ [c]\<rparr>"
    by simp
  then show "outside s (s\<lparr>trace := trace s @ [c]\<rparr>)"
    unfolding outside_def by blast
qed

lemma outside_add_visual_tag_constraints: "steps outside (add_visual_tag_constraints E)"
  unfolding add_visual_tag_constraints_def
  by (intro steps_pbind[OF preorder_outside] steps_gets[OF preorder_outside]
        steps_ret[OF preorder_outside] steps_if outside_ext outside_log)

lemma outsideD:
  assumes "outside s s'"
  shows "last_state_id s' = last_state_id s" and "set (trace s) \<subseteq> set (trace s')"
  using assms unfolding outside_def by auto

lemma resolve_state_ok:
  assumes tier1: "raises E (GetNode q) = None \<or> raises E (GetNode q) = Some UserException"
    and dflt: "raises E (GetNode q) = Some UserException \<and> last_state_id s = None
               \<longrightarrow> raises E (GetParam ''default_state_id'') = None"
  shows "snd (resolve_state E q s) =
           Return (if raises E (GetNode q) = None then getNode E q
                   else case last_state_id s of Some c \<Rightarrow> c | None \<Rightarrow> param_default_state_id E)
         \<and> outside s (fst (resolve_state E q s))"
proof -
  have "steps outside (resolve_state E q)"
    unfolding resolve_state_def
    by (intro steps_try_except[OF preorder_outside] steps_pbind[OF preorder_outside]
          steps_gets[OF preorder_outside] steps_ret[OF preorder_outside] steps_case_option
          outside_ext outside_log)
  then have o: "outside s (fst (resolve_state E q s))"
    by (rule stepsD(1))
  have r: "snd (resolve_state E q s) =
           Return (if raises E (GetNode q) = None then getNode E q
                   else case last_state_id s of Some c \<Rightarrow> c | None \<Rightarrow> param_default_state_id E)"
  proof (cases "raises E (GetNode q)")
    case None
    then show ?thesis
      unfolding resolve_state_def by (simp add: prog_defs)
  next
    case (Some e)
    then have e: "raises E (GetNode q) = Some UserException" using tier1 by simp
    show ?thesis
    proof (cases "last_state_id s")
      case None
      then have "raises E (GetParam ''default_state_id'') = None" using e dflt by simp
      then show ?thesis
        using e None unfolding resolve_state_def by (simp add: prog_defs)
    next
      case (Some c)
      then show ?thesis
        using e unfolding resolve_state_def by (simp add: prog_defs)
    qed
  qed
  show ?thesis using o r by simp
qed

lemma pbind_Return: "m s = (s1, Return a) \<Longrightarrow> pbind m f s = f a s1"
  by (simp add: pbind_def)

lemma pbind_Raise: "m s = (s1, Raise e) \<Longrightarrow> pbind m f s = (s1, Raise e)"
  by (simp add: pbind_def)

lemma pbind_Block: "m s = (s1, Block) \<Longrightarrow> pbind m f s = (s1, Block)"
  by (simp add: pbind_def)

lemma ext_raises:
  "raises E c = Some e \<Longrightarrow>
   ext E c v s = (s\<lparr>model_config := server_config E c (model_config s), trace := trace s @ [c]\<rparr>, Raise e)"
  by (simp add: ext_def)

lemma outside_refl: "outside s s"
  using preorder_outside by (simp add: preorder_on_states_def)

lemma apply_state_ok:
  "last_state_id (fst (apply_state E sid s)) = Some sid
   \<and> set (trace s) \<subseteq> set (trace (fst (apply_state E sid s)))
   \<and> PublishStateId sid \<in> set (trace (fst (apply_state E sid s)))
   \<and> (raises E (PublishStateId sid) = None \<longrightarrow>
        SetConstraints sid True \<in> set (trace (fst (apply_state E sid s))))"
proof -
  let ?s1 = "s\<lparr>last_state_id := Some sid\<rparr>"
  let ?s2 = "?s1\<lparr>model_config := server_config E (PublishStateId sid) (model_config ?s1),
                 trace := trace ?s1 @ [PublishStateId sid]\<rparr>"
  let ?s3 = "?s2\<lparr>model_config := server_config E (SetConstraints sid True) (model_config ?s2),
                 trace := trace ?s2 @ [SetConstraints sid True]\<rparr>"
  let ?k = "pbind (gets locked_joints) (\<lambda>lj. ext E (AddLockedJointConstraints ''unused'' lj) ())"
  let ?rest = "\<lambda>_ :: unit. pbind (ext E (SetConstraints sid True) ()) (\<lambda>_. ?k)"
  have m: "modify (\<lambda>s. s\<lparr>last_state_id := Some sid\<rparr>) s = (?s1, Return ())"
    by (simp add: modify_def)
  have a: "apply_state E sid s = pbind (ext E (PublishStateId sid) ()) ?rest ?s1"
    unfolding apply_state_def by (rule pbind_Return) (rule m)
  have f2: "last_state_id ?s2 = Some sid" "set (trace s) \<subseteq> set (trace ?s2)"
    "PublishStateId sid \<in> set (trace ?s2)"
    by auto
  have f3: "last_state_id ?s3 = Some sid" "set (trace s) \<subseteq> set (trace ?s3)"
    "PublishStateId sid \<in> set (trace ?s3)" "SetConstraints sid True \<in> set (trace ?s3)"
    by auto
  show ?thesis
  proof (cases "raises E (PublishStateId sid)")
    case (Some e)
    have "apply_state E sid s = (?s2, Raise e)"
      unfolding a by (rule pbind_Raise) (rule ext_raises[OF Some])
    then show ?thesis using f2 Some by simp
  next
    case None
    have k: "steps outside ?k"
      by (intro steps_pbind[OF preorder_outside] steps_gets[OF preorder_outside] outside_ext)
    have e1: "apply_state E sid s = pbind (ext E (SetConstraints sid True) ()) (\<lambda>_. ?k) ?s2"
      unfolding a by (rule pbind_Return) (rule ext_ok[OF None])
    have o: "outside ?s3 (fst (apply_state E sid s))"
    proof (cases "raises E (SetConstraints sid True)")
      case None
      have "apply_state E sid s = ?k ?s3"
        unfolding e1 by (rule pbind_Return) (rule ext_ok[OF None])
      then show ?thesis using stepsD(1)[OF k, of ?s3] by simp
    next
      case (Some e)
      have "apply_state E sid s = (?s3, Raise e)"
        unfolding e1 by (rule pbind_Raise) (rule ext_raises[OF Some])
      then show ?thesis using outside_refl[of ?s3] by simp
    qed
    have "last_state_id (fst (apply_state E sid s)) = Some sid"
      using outsideD(1)[OF o] f3(1) by simp
    moreover have "set (trace ?s3) \<subseteq> set (trace (fst (apply_state E sid s)))"
      by (rule outsideD(2)[OF o])
    ultimately show ?thesis using f3(2,3,4) by blast
  qed
qed


text \<open>
  C3. In \<^verbatim>\<open>_initialize_constraints\<close> with a manipulation graph, when the handles and the
  reset are obtained: if \<^verbatim>\<open>getNode\<close> returns, its state is taken; if it raises
  \<^verbatim>\<open>UserException\<close> and a state is cached, the cached state is taken; if it raises
  \<^verbatim>\<open>UserException\<close>, nothing is cached and the parameter \<^verbatim>\<open>default_state_id\<close> can be
  read, the default is taken. In each case the state taken is stored in
  \<^verbatim>\<open>last_state_id\<close>, the call publishing it on \<^verbatim>\<open>state_id\<close> is made, and when that call
  returns the constraints of that state are asked for.
\<close>

theorem state_resolution:
  assumes manip: "has_manip s"
    and pre: "raises E Hpp = None" "raises E ResetConstraints = None" "raises E Manip = None"
    and tier1: "raises E (GetNode q) = None \<or> raises E (GetNode q) = Some UserException"
    and dflt: "raises E (GetNode q) = Some UserException \<and> last_state_id s = None
               \<longrightarrow> raises E (GetParam ''default_state_id'') = None"
  shows "let sid = (if raises E (GetNode q) = None then getNode E q
                    else case last_state_id s of Some c \<Rightarrow> c | None \<Rightarrow> param_default_state_id E);
             s' = fst (initialize_constraints E q s)
         in last_state_id s' = Some sid
            \<and> PublishStateId sid \<in> set (trace s')
            \<and> (raises E (PublishStateId sid) = None \<longrightarrow> SetConstraints sid True \<in> set (trace s'))"
proof -
  define sid where "sid = (if raises E (GetNode q) = None then getNode E q
                    else case last_state_id s of Some c \<Rightarrow> c | None \<Rightarrow> param_default_state_id E)"
  let ?sC = "s\<lparr>trace := trace s @ [Hpp, ResetConstraints, Manip]\<rparr>"
  have dflt': "raises E (GetNode q) = Some UserException \<and> last_state_id ?sC = None
               \<longrightarrow> raises E (GetParam ''default_state_id'') = None"
    using dflt by simp
  obtain sa ra where rs: "resolve_state E q ?sC = (sa, ra)" by (cases "resolve_state E q ?sC")
  have ra: "ra = Return sid" and o1: "outside ?sC sa"
    using resolve_state_ok[OF tier1 dflt'] rs by (simp_all add: sid_def)
  obtain sb rb where ap: "apply_state E sid sa = (sb, rb)" by (cases "apply_state E sid sa")
  have fb: "last_state_id sb = Some sid" "PublishStateId sid \<in> set (trace sb)"
    "raises E (PublishStateId sid) = None \<longrightarrow> SetConstraints sid True \<in> set (trace sb)"
    using apply_state_ok[of E sid sa] ap by simp_all
  obtain sc rc where tl: "add_visual_tag_constraints E sb = (sc, rc)"
    by (cases "add_visual_tag_constraints E sb")
  have o3: "outside sb sc"
    using stepsD(1)[OF outside_add_visual_tag_constraints, of sb E] tl by simp
  have fc: "last_state_id sc = Some sid" "PublishStateId sid \<in> set (trace sc)"
    "raises E (PublishStateId sid) = None \<longrightarrow> SetConstraints sid True \<in> set (trace sc)"
    using outsideD[OF o3] fb by auto
  have "fst (initialize_constraints E q s) = (case rb of Return _ \<Rightarrow> sc | _ \<Rightarrow> sb)"
    unfolding initialize_constraints_def
    using manip pre rs ra ap tl
    by (cases rb) (simp_all add: pbind_def ext_def gets_def)
  then show ?thesis
    unfolding Let_def sid_def[symmetric] using fb fc by (cases rb) simp_all
qed

theorem state_resolution_witness:
  "has_manip node0 \<and> raises env_ok (GetNode []) = None
   \<and> last_state_id (fst (initialize_constraints env_ok [] node0)) = Some (getNode env_ok [])
   \<and> PublishStateId 3 \<in> set (trace (fst (initialize_constraints env_ok [] node0)))
   \<and> raises env_lost (GetNode []) = Some UserException
   \<and> last_state_id node_cached = Some 5
   \<and> last_state_id (fst (initialize_constraints env_lost [] node_cached)) = Some 5
   \<and> PublishStateId 5 \<in> set (trace (fst (initialize_constraints env_lost [] node_cached)))
   \<and> last_state_id node0 = None
   \<and> last_state_id (fst (initialize_constraints env_lost [] node0))
        = Some (param_default_state_id env_lost)
   \<and> PublishStateId 7 \<in> set (trace (fst (initialize_constraints env_lost [] node0)))"
proof -
  have m: "has_manip node0" "has_manip node_cached"
    by (simp_all add: example_defs prog_defs)
  have c: "last_state_id node0 = None" "last_state_id node_cached = Some 5"
    by (simp_all add: example_defs prog_defs)
  have ok: "raises env_ok Hpp = None" "raises env_ok ResetConstraints = None"
    "raises env_ok Manip = None" "raises env_ok (GetNode []) = None"
    "getNode env_ok [] = 3"
    by (simp_all add: example_defs)
  have lost: "raises env_lost Hpp = None" "raises env_lost ResetConstraints = None"
    "raises env_lost Manip = None" "raises env_lost (GetNode []) = Some UserException"
    "raises env_lost (GetParam ''default_state_id'') = None"
    "param_default_state_id env_lost = 7"
    by (simp_all add: example_defs)
  show ?thesis
    using m c ok lost
      state_resolution[of node0 env_ok "[]"]
      state_resolution[of node_cached env_lost "[]"]
      state_resolution[of node0 env_lost "[]"]
    by (simp add: Let_def)
qed

subsection \<open>A cycle whose projection fails\<close>

text \<open>
  C4. In a cycle of \<^verbatim>\<open>estimation\<close> entered with the mutex free, in which the current
  configuration is read, \<^verbatim>\<open>_initialize_constraints\<close> returns (leaving the state \<open>s2\<close>),
  and \<^verbatim>\<open>applyConstraints\<close> returns with a false first component, the calls made after
  the initialisation are the projection, the call setting the current configuration
  back to the one read at the start, and one throttled warning: no optimisation, no
  publication. When the call setting the configuration returns, the server holds the
  configuration read at the start, whatever the projection left there.
\<close>

theorem projection_failure_aborts:
  assumes free: "\<not> mutex_locked s"
    and pre: "raises E Hpp = None" "raises E GetCurrentConfig = None"
    and init: "initialize_constraints E (model_config s)
                 (s\<lparr>mutex_locked := True, trace := trace s @ [Hpp, GetCurrentConfig]\<rparr>)
               = (s2, Return ())"
    and proj: "raises E (ApplyConstraints (model_config s)) = None"
      "\<not> fst (applyConstraints E (model_config s))"
      "raises E (SetCurrentConfig (model_config s)) = None"
  shows "estimation E s =
           (s2\<lparr>mutex_locked := False, last_stamp_is_ready := False,
               model_config := model_config s,
               trace := trace s2 @ [ApplyConstraints (model_config s),
                          SetCurrentConfig (model_config s),
                          LogThrottle WARN 1 ''Could not apply the constraints {0}'']\<rparr>,
            Return ())
         \<and> model_config (fst (estimation E s)) = model_config s
         \<and> drop (length (trace s2)) (trace (fst (estimation E s))) =
             [ApplyConstraints (model_config s), SetCurrentConfig (model_config s),
              LogThrottle WARN 1 ''Could not apply the constraints {0}'']"
proof -
  have e: "estimation E s =
           (s2\<lparr>mutex_locked := False, last_stamp_is_ready := False,
               model_config := model_config s,
               trace := trace s2 @ [ApplyConstraints (model_config s),
                          SetCurrentConfig (model_config s),
                          LogThrottle WARN 1 ''Could not apply the constraints {0}'']\<rparr>,
            Return ())"
    unfolding estimation_result[OF free] estimation_try_def
    using pre init proj
    by (simp add: pbind_def ext_def gets_def try_except_def rospy_log_def Let_def)
  show ?thesis unfolding e by simp
qed

theorem projection_failure_aborts_witness:
  "\<not> mutex_locked node0 \<and> model_config node0 = []
   \<and> \<not> fst (applyConstraints env_no_projection [])
   \<and> model_config (fst (estimation env_no_projection node0)) = []
   \<and> trace (fst (estimation env_no_projection node0)) =
         trace node0 @
            [Hpp, GetCurrentConfig, Hpp, ResetConstraints, Manip, GetNode [],
             LogThrottle INFO 1 ''At {0}, current state: {1}'', PublishStateId 3,
             SetConstraints 3 True, AddLockedJointConstraints ''unused'' [],
             ApplyConstraints [], SetCurrentConfig [],
             LogThrottle WARN 1 ''Could not apply the constraints {0}'']
   \<and> snd (estimation env_no_projection node0) = Return ()"
proof -
  let ?s1 = "node0\<lparr>mutex_locked := True, trace := trace node0 @ [Hpp, GetCurrentConfig]\<rparr>"
  let ?s2 = "node0\<lparr>mutex_locked := True, last_state_id := Some 3, model_config := [42],
          trace := trace node0 @
            [Hpp, GetCurrentConfig, Hpp, ResetConstraints, Manip, GetNode [],
             LogThrottle INFO 1 ''At {0}, current state: {1}'', PublishStateId 3,
             SetConstraints 3 True, AddLockedJointConstraints ''unused'' []]\<rparr>"
  have h: "\<not> mutex_locked node0" "raises env_no_projection Hpp = None"
    "raises env_no_projection GetCurrentConfig = None"
    by (simp_all add: example_defs prog_defs)
  have mc: "model_config node0 = []"
    by (simp add: example_defs prog_defs)
  have i: "initialize_constraints env_no_projection (model_config node0) ?s1 = (?s2, Return ())"
    by (simp add: initialize_constraints_def resolve_state_def apply_state_def
          add_visual_tag_constraints_def example_defs prog_defs)
  have p: "raises env_no_projection (ApplyConstraints (model_config node0)) = None"
    "\<not> fst (applyConstraints env_no_projection (model_config node0))"
    "raises env_no_projection (SetCurrentConfig (model_config node0)) = None"
    by (simp_all add: example_defs)
  show ?thesis
    using h(1) mc p(2) projection_failure_aborts[OF h i p]
    by simp
qed

subsection \<open>A cycle whose optimisation fails\<close>

lemma publish_tail:
  "\<exists>ev. trace (fst (pbind (ext E (PublishSemantic qe) ()) (\<lambda>_. publish_state E) s)) =
          trace s @ PublishSemantic qe # ev
        \<and> snd (pbind (ext E (PublishSemantic qe) ()) (\<lambda>_. publish_state E) s) \<noteq> Block"
proof (cases "raises E (PublishSemantic qe)")
  case None
  let ?s1 = "s\<lparr>model_config := server_config E (PublishSemantic qe) (model_config s),
                trace := trace s @ [PublishSemantic qe]\<rparr>"
  have e: "pbind (ext E (PublishSemantic qe) ()) (\<lambda>_. publish_state E) s = publish_state E ?s1"
    by (rule pbind_Return) (rule ext_ok[OF None])
  have "quiet ?s1 (fst (publish_state E ?s1))" and nb: "snd (publish_state E ?s1) \<noteq> Block"
    using stepsD[OF quiet_publish_state[of E], of ?s1] by simp_all
  then obtain ev where "trace (fst (publish_state E ?s1)) = trace ?s1 @ ev"
    unfolding quiet_def by blast
  then show ?thesis using nb unfolding e by simp
next
  case (Some e)
  have "pbind (ext E (PublishSemantic qe) ()) (\<lambda>_. publish_state E) s =
        (s\<lparr>model_config := server_config E (PublishSemantic qe) (model_config s),
           trace := trace s @ [PublishSemantic qe]\<rparr>, Raise e)"
    by (rule pbind_Raise) (rule ext_raises[OF Some])
  then show ?thesis by simp
qed

lemma try_except_log_tail:
  assumes "trace (fst (body s)) = trace s @ ev" and "snd (body s) \<noteq> Block"
  shows "\<exists>ev'. trace (fst (try_except body is_Exception
            (\<lambda>e. pbind (rospy_log (LogThrottle ERROR 1 ''str(e)'')) (\<lambda>_.
                    rospy_log (LogThrottle ERROR 1 ''traceback.format_exc()''))) s))
          = trace s @ ev @ ev'"
proof -
  obtain s1 r where b: "body s = (s1, r)" by (cases "body s")
  show ?thesis
    using assms b
    by (cases r) (auto simp: try_except_def pbind_def rospy_log_def)
qed


lemma norm_vec_single: "norm_vec [x] = \<bar>x\<bar>"
  by (simp add: norm_vec_def)

text \<open>
  C5. In a cycle of \<^verbatim>\<open>estimation\<close> entered with the mutex free, in which the current
  configuration is read, \<^verbatim>\<open>_initialize_constraints\<close> returns (leaving the state \<open>s2\<close>),
  the projection succeeds, \<^verbatim>\<open>optimize\<close> returns with a false first component, the
  configuration \<open>qe\<close> and the residual \<open>err\<close>, and the validity check returns: when the
  norm of \<open>err\<close> is above 0.01 a throttled warning is logged, otherwise a throttled
  information; in both cases the validity of \<open>qe\<close> is checked and the call publishing
  \<open>qe\<close> on \<^verbatim>\<open>semantic\<close> is made.
\<close>

theorem optimization_failure_still_publishes:
  assumes free: "\<not> mutex_locked s"
    and pre: "raises E Hpp = None" "raises E GetCurrentConfig = None"
    and init: "initialize_constraints E (model_config s)
                 (s\<lparr>mutex_locked := True, trace := trace s @ [Hpp, GetCurrentConfig]\<rparr>)
               = (s2, Return ())"
    and proj: "raises E (ApplyConstraints (model_config s)) = None"
      "applyConstraints E (model_config s) = (True, qp, perr)"
    and opt: "raises E (Optimize qp) = None" "optimize E qp = (False, qe, err)"
    and val: "raises E (IsConfigValid qe) = None"
  shows "\<exists>rest. trace (fst (estimation E s)) =
           trace s2 @ [ApplyConstraints (model_config s), Optimize qp]
           @ (if norm_vec err > 0.01
              then [LogThrottle WARN 1 ''Optimisation failed ? error norm: {0}'',
                    LogThrottle DEBUG 1 ''estimated == projected: {0}'']
              else [LogThrottle INFO 1 ''Optimisation failed ? error norm: {0}''])
           @ [LogThrottle DEBUG 1 ''Error {0}'', IsConfigValid qe]
           @ (if fst (isConfigValid E qe) then []
              else [LogThrottle WARN 1 ''Estimation in collision: {0}''])
           @ PublishSemantic qe # rest"
proof -
  define P where "P = (\<lambda>qe. pbind (ext E (PublishSemantic qe) ()) (\<lambda>_. publish_state E))"
  have fold: "\<And>qe. pbind (ext E (PublishSemantic qe) ()) (\<lambda>_. publish_state E) = P qe"
    by (simp add: P_def)
  define pre_events where "pre_events =
           [ApplyConstraints (model_config s), Optimize qp]
           @ (if norm_vec err > 0.01
              then [LogThrottle WARN 1 ''Optimisation failed ? error norm: {0}'',
                    LogThrottle DEBUG 1 ''estimated == projected: {0}'']
              else [LogThrottle INFO 1 ''Optimisation failed ? error norm: {0}''])
           @ [LogThrottle DEBUG 1 ''Error {0}'', IsConfigValid qe]
           @ (if fst (isConfigValid E qe) then []
              else [LogThrottle WARN 1 ''Estimation in collision: {0}''])"
  define s4 where "s4 = s2\<lparr>model_config := config_after E (IsConfigValid qe)
                            (config_after E (Optimize qp)
                              (config_after E (ApplyConstraints (model_config s)) (model_config s2))),
                          trace := trace s2 @ pre_events\<rparr>"
  let ?H = "\<lambda>e. pbind (rospy_log (LogThrottle ERROR 1 ''str(e)'')) (\<lambda>_.
                    rospy_log (LogThrottle ERROR 1 ''traceback.format_exc()''))"
  have t: "estimation_try E (s\<lparr>mutex_locked := True\<rparr>) = try_except (P qe) is_Exception ?H s4"
    unfolding estimation_try_def fold
    using pre init proj opt val
    by (cases "norm_vec err > 0.01"; cases "fst (isConfigValid E qe)")
       (simp_all add: pbind_def ext_def gets_def try_except_def rospy_log_def Let_def ret_def
          s4_def pre_events_def)
  obtain ev where p: "trace (fst (P qe s4)) = trace s4 @ PublishSemantic qe # ev"
    and nb: "snd (P qe s4) \<noteq> Block"
    using publish_tail[of E qe s4] unfolding P_def by blast
  obtain ev' where "trace (fst (try_except (P qe) is_Exception ?H s4))
                    = trace s4 @ (PublishSemantic qe # ev) @ ev'"
    using try_except_log_tail[of "P qe" s4 "PublishSemantic qe # ev", OF p nb] by blast
  then have "trace (fst (estimation E s)) = trace s2 @ pre_events @ PublishSemantic qe # (ev @ ev')"
    unfolding estimation_result[OF free] t by (simp add: s4_def)
  then show ?thesis unfolding pre_events_def by (intro exI[of _ "ev @ ev'"]) simp
qed

theorem optimization_failure_still_publishes_witness:
  "\<not> mutex_locked node0
   \<and> optimize (env_no_optimum [1]) [] = (False, [], [1]) \<and> norm_vec [1] > 0.01
   \<and> (\<exists>rest. trace (fst (estimation (env_no_optimum [1]) node0)) =
         trace node0 @
            [Hpp, GetCurrentConfig, Hpp, ResetConstraints, Manip, GetNode [],
             LogThrottle INFO 1 ''At {0}, current state: {1}'', PublishStateId 3,
             SetConstraints 3 True, AddLockedJointConstraints ''unused'' [],
             ApplyConstraints [], Optimize [],
             LogThrottle WARN 1 ''Optimisation failed ? error norm: {0}'',
             LogThrottle DEBUG 1 ''estimated == projected: {0}'',
             LogThrottle DEBUG 1 ''Error {0}'', IsConfigValid [], PublishSemantic []] @ rest)
   \<and> optimize (env_no_optimum [0.01]) [] = (False, [], [0.01]) \<and> \<not> norm_vec [0.01] > 0.01
   \<and> (\<exists>rest. trace (fst (estimation (env_no_optimum [0.01]) node0)) =
         trace node0 @
            [Hpp, GetCurrentConfig, Hpp, ResetConstraints, Manip, GetNode [],
             LogThrottle INFO 1 ''At {0}, current state: {1}'', PublishStateId 3,
             SetConstraints 3 True, AddLockedJointConstraints ''unused'' [],
             ApplyConstraints [], Optimize [],
             LogThrottle INFO 1 ''Optimisation failed ? error norm: {0}'',
             LogThrottle DEBUG 1 ''Error {0}'', IsConfigValid [], PublishSemantic []] @ rest)"
proof -
  let ?s1 = "node0\<lparr>mutex_locked := True, trace := trace node0 @ [Hpp, GetCurrentConfig]\<rparr>"
  let ?s2 = "node0\<lparr>mutex_locked := True, last_state_id := Some 3,
          trace := trace node0 @
            [Hpp, GetCurrentConfig, Hpp, ResetConstraints, Manip, GetNode [],
             LogThrottle INFO 1 ''At {0}, current state: {1}'', PublishStateId 3,
             SetConstraints 3 True, AddLockedJointConstraints ''unused'' []]\<rparr>"
  have f: "\<not> mutex_locked node0" and mc: "model_config node0 = []"
    by (simp_all add: example_defs prog_defs)
  have n: "norm_vec [1] > 0.01" "\<not> norm_vec [0.01] > 0.01"
    by (simp_all add: norm_vec_single)
  have h: "\<And>r. raises (env_no_optimum r) Hpp = None"
    "\<And>r. raises (env_no_optimum r) GetCurrentConfig = None"
    "\<And>r. raises (env_no_optimum r) (ApplyConstraints (model_config node0)) = None"
    "\<And>r. applyConstraints (env_no_optimum r) (model_config node0) = (True, [], [])"
    "\<And>r. raises (env_no_optimum r) (Optimize []) = None"
    "\<And>r. optimize (env_no_optimum r) [] = (False, [], r)"
    "\<And>r. raises (env_no_optimum r) (IsConfigValid []) = None"
    "\<And>r. fst (isConfigValid (env_no_optimum r) [])"
    by (simp_all add: example_defs prog_defs)
  have i: "\<And>r. initialize_constraints (env_no_optimum r) (model_config node0) ?s1
             = (?s2, Return ())"
    by (simp add: initialize_constraints_def resolve_state_def apply_state_def
          add_visual_tag_constraints_def example_defs prog_defs)
  show ?thesis
    using f n h(6)[of "[1]"] h(6)[of "[0.01]"]
      optimization_failure_still_publishes[OF f h(1) h(2) i h(3) h(4) h(5) h(6) h(7), of "[1]"]
      optimization_failure_still_publishes[OF f h(1) h(2) i h(3) h(4) h(5) h(6) h(7), of "[0.01]"]
    by (simp add: mc h(8))
qed

end
